theory Spec2Isabelle
  imports Main "HOL-Library.List_Lexorder" "HOL-Library.Product_Lexorder" "HOL-Library.Multiset"
begin

section \<open>Python strings\<close>

text \<open>
  A Python \<open>str\<close> is a sequence of Unicode code points and is modelled as the list of these
  code points, each a natural number. The order of such lists is lexicographic, which is the
  order Python gives two strings. \<open>str\<close> turns an ASCII literal into this form; code points
  outside ASCII are written as numbers.
\<close>

type_synonym pystr = "nat list"

definition str :: "string \<Rightarrow> pystr" where
  "str s = map of_char s"

text \<open>
  \<open>str.isspace\<close> for one code point, which \<open>strip\<close> and \<open>split\<close> use: tab to carriage
  return, the separators U+001C to U+001F, the space, U+0085, U+00A0, U+1680, U+2000 to U+200A,
  U+2028, U+2029, U+202F, U+205F and U+3000.
\<close>

definition py_isspace :: "nat \<Rightarrow> bool" where
  "py_isspace c =
     (c \<in> set [0x09, 0x0A, 0x0B, 0x0C, 0x0D, 0x1C, 0x1D, 0x1E, 0x1F, 0x20, 0x85, 0xA0, 0x1680,
                0x2000, 0x2001, 0x2002, 0x2003, 0x2004, 0x2005, 0x2006, 0x2007, 0x2008, 0x2009,
                0x200A, 0x2028, 0x2029, 0x202F, 0x205F, 0x3000])"

text \<open>
  \<open>str.upper\<close> replaces every code point by its uppercase mapping, which has one to three
  code points and comes from the Unicode tables of the interpreter. These tables are not part
  of the repository: the mapping is the parameter \<open>up\<close> of every function that uppercases.
\<close>

definition py_upper :: "(nat \<Rightarrow> pystr) \<Rightarrow> pystr \<Rightarrow> pystr" where
  "py_upper up s = concat (map up s)"

definition py_strip :: "pystr \<Rightarrow> pystr" where
  "py_strip s = rev (dropWhile py_isspace (rev (dropWhile py_isspace s)))"

text \<open>
  \<open>s.split()\<close> without a separator: the maximal runs of code points that are not white space.
  \<open>split_ws cur rest\<close> carries the word being read.
\<close>

fun split_ws :: "pystr \<Rightarrow> pystr \<Rightarrow> pystr list" where
  "split_ws cur [] = (if cur = [] then [] else [cur])"
| "split_ws cur (c # cs) =
     (if py_isspace c then (if cur = [] then split_ws [] cs else cur # split_ws [] cs)
      else split_ws (cur @ [c]) cs)"

definition py_split :: "pystr \<Rightarrow> pystr list" where
  "py_split s = split_ws [] s"

text \<open>
  \<open>s.split(sep)\<close> with a separator of one code point: every occurrence cuts, empty fields
  are kept, and the empty string gives one empty field.
\<close>

fun split_on :: "nat \<Rightarrow> pystr \<Rightarrow> pystr \<Rightarrow> pystr list" where
  "split_on sep cur [] = [cur]"
| "split_on sep cur (c # cs) =
     (if c = sep then cur # split_on sep [] cs else split_on sep (cur @ [c]) cs)"

definition py_split_on :: "nat \<Rightarrow> pystr \<Rightarrow> pystr list" where
  "py_split_on sep s = split_on sep [] s"

fun py_join :: "pystr \<Rightarrow> pystr list \<Rightarrow> pystr" where
  "py_join sep [] = []"
| "py_join sep [x] = x"
| "py_join sep (x # y # ys) = x @ sep @ py_join sep (y # ys)"

text \<open>
  \<open>s.replace(old, new)\<close>: the occurrences of \<open>old\<close> are found from the left and do not
  overlap; an empty \<open>old\<close> matches before every code point and at the end.
\<close>

function py_replace :: "pystr \<Rightarrow> pystr \<Rightarrow> pystr \<Rightarrow> pystr" where
  "py_replace old new s =
     (if old = [] then new @ concat (map (\<lambda>c. c # new) s)
      else if s = [] then []
      else if take (length old) s = old then new @ py_replace old new (drop (length old) s)
      else hd s # py_replace old new (tl s))"
  by pat_completeness auto
termination
  by (relation "measure (\<lambda>(old, new, s). length s)") auto

declare py_replace.simps [simp del]

text \<open>\<open>xs.index(x)\<close>, with \<open>None\<close> for the \<open>ValueError\<close> of a missing element.\<close>

fun py_index :: "'a list \<Rightarrow> 'a \<Rightarrow> nat option" where
  "py_index [] x = None"
| "py_index (y # ys) x = (if y = x then Some 0 else map_option Suc (py_index ys x))"

text \<open>
  A key of a JSON object that the programs read with \<open>.get\<close>: it is absent, or it holds
  \<open>null\<close>, or it holds a value. \<open>py_get f default\<close> is \<open>d.get(key, default)\<close>, a Python value:
  \<open>None\<close> stands for Python's \<open>None\<close>.
\<close>

datatype 'a field = Absent | Null | Val 'a

definition py_get :: "'a field \<Rightarrow> 'a option \<Rightarrow> 'a option" where
  "py_get f dflt = (case f of Absent \<Rightarrow> dflt | Null \<Rightarrow> None | Val v \<Rightarrow> Some v)"

text \<open>The same for a key whose \<open>null\<close> is not told from its absence (\<open>None\<close> for both).\<close>

definition get_or :: "'a option \<Rightarrow> 'a \<Rightarrow> 'a" where
  "get_or v dflt = (case v of None \<Rightarrow> dflt | Some x \<Rightarrow> x)"

section \<open>The name normalizer\<close>

text \<open>The malformed sequence \<open>TH3\<close>, space, en dash (U+2013), space, \<open>OY\<close>.\<close>

definition TH3_EN_DASH :: pystr where
  "TH3_EN_DASH = str ''TH3 '' @ [0x2013] @ str '' OY''"

text \<open>
  \<open>normalize_name\<close> of \<^verbatim>\<open>preencher_malhas.py\<close> and \<open>norm\<close> of
  \<^verbatim>\<open>scripts/update_status.py\<close> have the same body. The argument is a string or \<open>None\<close>,
  and \<open>s or ""\<close> turns \<open>None\<close> into the empty string.
\<close>

definition normalize_name :: "(nat \<Rightarrow> pystr) \<Rightarrow> pystr option \<Rightarrow> pystr" where
  "normalize_name up s =
     (let s0 = (case s of None \<Rightarrow> [] | Some x \<Rightarrow> x);
          s1 = py_upper up (py_strip s0);
          s2 = py_join (str '' '') (py_split s1)
      in py_replace TH3_EN_DASH (str ''TH3 - OY'') s2)"

definition norm :: "(nat \<Rightarrow> pystr) \<Rightarrow> pystr option \<Rightarrow> pystr" where
  "norm up s =
     (let s0 = (case s of None \<Rightarrow> [] | Some x \<Rightarrow> x);
          s1 = py_upper up (py_strip s0);
          s2 = py_join (str '' '') (py_split s1)
      in py_replace TH3_EN_DASH (str ''TH3 - OY'') s2)"

text \<open>The replacement step of both functions, for the statements below.\<close>

abbreviation (input) th3_replace :: "pystr \<Rightarrow> pystr" where
  "th3_replace \<equiv> py_replace TH3_EN_DASH (str ''TH3 - OY'')"

section \<open>The fixed tables\<close>

text \<open>Both programs hold the same two tables.\<close>

definition GESTAO_PJ :: pystr where
  "GESTAO_PJ = str ''Gest'' @ [0xE3] @ str ''o PJ e Alto Risco''"

definition ORDEM_CATEGORIAS :: "pystr list" where
  "ORDEM_CATEGORIAS =
     [str ''Rotativos'', str ''Parcelados'', str ''Modelos'', GESTAO_PJ, str ''Semanal'']"

definition ORDEM_MALHAS :: "(pystr \<times> pystr list) list" where
  "ORDEM_MALHAS =
     [(str ''Rotativos'',
        map str
          [''ORIGENS'', ''ADMISSAO'', ''TETO V2'', ''CMA'', ''GESTAO'', ''CHEQUE'',
           ''CONCESSAO CARTAO'', ''CONCESSAO CHEQUE'', ''SUPER CREDITO'',
           ''RENOVACAO LIMITES SEMANAL'', ''OVERLIMIT CLOUD'',
           ''ATUALIZACAO OVERLIMIT ONLINE MF'', ''OVERLIMIT CARTAO'']),
      (str ''Parcelados'',
        map str
          [''CONSIGNADO'', ''CONSORCIO'', ''CP INVESTIDOR'', ''MICROCREDITO'', ''RX'',
           ''TH3 - OY'', ''IMOBILIARIO'']),
      (str ''Modelos'',
        map str
          [''BULKLOAD PF ROTATIVOS'', ''CMA PF'', ''DNA'', ''FATURAMENTO'',
           ''MODELOS PF PARCELADOS'', ''MODELOS PF ROTATIVOS'', ''THR'', ''RENDAS'']),
      (GESTAO_PJ,
        map str
          [''BULKLOAD PRAT CPF_CNPJ'', ''PREVENTIVO PF'', ''LISTA PREV PJ SEMANAL'',
           ''REDUCAO SEMANAL'', ''REDUCAO MENSAL'']),
      (str ''Semanal'',
        map str
          [''THD SEMANAL'', ''THJ SEMANAL'', ''SUPER CREDITO SEMANAL'',
           ''OVERLIMIT CHEQUE SEMANAL'', ''RENOVADOR CHEQUE SEMANAL'', ''RX SEMANAL'',
           ''IMOBILIARIO PREVENTIVO - SEMANAL'', ''STATUS MQ''])]"

definition VALID_STATUS :: "pystr list" where
  "VALID_STATUS =
     map str
       [''exec'', ''ok'', ''contingencia'', ''abend'', ''nao_comecou'', ''aguardando'',
        ''sem_exec'']"

section \<open>The documents\<close>

text \<open>
  A JSON scalar, for the fields the programs read without calling a string method on them.
  \<open>JNull\<close> stands for \<open>null\<close> and for an absent key: each of these fields is read with
  \<open>.get(key, default)\<close> followed by a test that sends \<open>None\<close> where it sends the default.
  Numbers are the integers.
\<close>

datatype jval = JNull | JBool bool | JNum int | JStr pystr

text \<open>Python's truth value of a scalar, and \<open>a or b\<close>.\<close>

fun py_bool :: "jval \<Rightarrow> bool" where
  "py_bool JNull = False"
| "py_bool (JBool b) = b"
| "py_bool (JNum n) = (n \<noteq> 0)"
| "py_bool (JStr s) = (s \<noteq> [])"

definition py_or :: "jval \<Rightarrow> jval \<Rightarrow> jval" where
  "py_or a b = (if py_bool a then a else b)"

text \<open>
  A catalog operation \<open>{id, nome, categoria}\<close>. The programs index \<open>id\<close> directly and read
  the other two with \<open>.get\<close>. The name is read with two different defaults, so its absence
  and its \<open>null\<close> are kept apart; the category is absent (\<open>None\<close>) or a string.
\<close>

record catalog_entry =
  c_id :: pystr
  c_nome :: "pystr field"
  c_categoria :: "pystr option"

text \<open>
  An item of an update payload. \<open>nome\<close> and \<open>nota\<close> go through string methods: they are a
  string, or \<open>None\<close> when absent or \<open>null\<close> (the source reads both as the empty string).
\<close>

record update_item =
  u_nome :: "pystr option"
  u_status :: jval
  u_ultimo_job :: jval
  u_termino_real :: jval
  u_fim_de_jogo :: jval
  u_nota :: "pystr option"

text \<open>The value stored in the dictionary \<open>incoming\<close> under a normalized name.\<close>

record fill =
  f_status :: pystr
  f_ultimo_job :: jval
  f_termino_real :: jval
  f_fim_de_jogo :: bool
  f_nota :: pystr

text \<open>A status record of a day, \<open>{id, status, ultimo_job, termino_real, fim_de_jogo, nota}\<close>.\<close>

record status_record =
  s_id :: pystr
  s_status :: pystr
  s_ultimo_job :: jval
  s_termino_real :: jval
  s_fim_de_jogo :: bool
  s_nota :: pystr

record day_record =
  d_updatedAt :: pystr
  d_itens :: "status_record list"

text \<open>
  The store document. An absent \<open>catalogo_malhas\<close> reads as the empty list and an absent
  \<open>dias\<close> as the empty dictionary, as the source's \<open>.get\<close> and \<open>setdefault\<close> do.
\<close>

record store =
  catalogo_malhas :: "catalog_entry list"
  dias :: "pystr \<rightharpoonup> day_record"

text \<open>The update payload; an absent \<open>itens\<close> reads as the empty list.\<close>

record payload =
  p_date :: "pystr option"
  p_updatedAt :: "pystr option"
  p_itens :: "update_item list"

datatype py_error =
    KeyError pystr
  | ValueError
  | FileNotFoundError pystr
  | JSONDecodeError

section \<open>The orderer\<close>

definition cat_order :: "pystr \<Rightarrow> nat" where
  "cat_order cat = (case py_index ORDEM_CATEGORIAS cat of Some i \<Rightarrow> i | None \<Rightarrow> 999)"

definition malha_order :: "(nat \<Rightarrow> pystr) \<Rightarrow> pystr \<Rightarrow> pystr option \<Rightarrow> nat" where
  "malha_order up cat nome =
     (let nome' = norm up nome;
          lst = get_or (map_of ORDEM_MALHAS cat) []
      in case py_index lst nome' of Some i \<Rightarrow> i | None \<Rightarrow> 9999)"

text \<open>The key of the \<open>sorted\<close> call: a tuple, compared lexicographically.\<close>

definition catalogo_key :: "(nat \<Rightarrow> pystr) \<Rightarrow> catalog_entry \<Rightarrow> nat \<times> nat \<times> pystr" where
  "catalogo_key up c =
     (cat_order (get_or (c_categoria c) []),
      malha_order up (get_or (c_categoria c) []) (py_get (c_nome c) (Some [])),
      norm up (py_get (c_nome c) (Some [])))"

text \<open>
  Python's \<open>sorted\<close> is stable, as \<^const>\<open>sort_key\<close> is. The copy of this function in
  \<^verbatim>\<open>preencher_malhas.py\<close> differs only in calling \<open>normalize_name\<close> for \<open>norm\<close>.
\<close>

definition sort_catalogo :: "(nat \<Rightarrow> pystr) \<Rightarrow> catalog_entry list \<Rightarrow> catalog_entry list" where
  "sort_catalogo up catalogo = sort_key (catalogo_key up) catalogo"

section \<open>Batch reconciliation (update\_status.py)\<close>

definition ensure_day :: "store \<Rightarrow> pystr \<Rightarrow> store" where
  "ensure_day data day =
     (if day \<in> dom (dias data) then data
      else data\<lparr>dias := (dias data)(day \<mapsto> \<lparr>d_updatedAt = [], d_itens = []\<rparr>)\<rparr>)"

text \<open>The status of an item: the value read, replaced when it is not in \<open>VALID_STATUS\<close>.\<close>

definition valid_status :: "jval \<Rightarrow> pystr" where
  "valid_status st =
     (case st of
        JStr s \<Rightarrow> if s \<in> set VALID_STATUS then s else str ''sem_exec''
      | _ \<Rightarrow> str ''sem_exec'')"

text \<open>The dictionary literal stored under the item's name (lines 167 to 173).\<close>

definition fill_of :: "update_item \<Rightarrow> fill" where
  "fill_of it =
     \<lparr>f_status = valid_status (u_status it),
      f_ultimo_job = py_or (u_ultimo_job it) (JStr (str ''-'')),
      f_termino_real = py_or (u_termino_real it) (JStr (str ''-'')),
      f_fim_de_jogo = py_bool (u_fim_de_jogo it),
      f_nota = py_strip (get_or (u_nota it) [])\<rparr>"

text \<open>One turn of the loop over \<open>raw_itens\<close>: an item whose name normalizes to the empty
  string is skipped, any other overwrites the entry of its name. \<open>item_name\<close> is the value
  of the loop's variable \<open>nome\<close> (line 161).\<close>

definition item_name :: "(nat \<Rightarrow> pystr) \<Rightarrow> update_item \<Rightarrow> pystr" where
  "item_name up it = norm up (Some (get_or (u_nome it) []))"

definition incoming_step ::
  "(nat \<Rightarrow> pystr) \<Rightarrow> (pystr \<rightharpoonup> fill) \<Rightarrow> update_item \<Rightarrow> (pystr \<rightharpoonup> fill)" where
  "incoming_step up incoming it =
     (let nome = item_name up it
      in if nome = [] then incoming else incoming(nome \<mapsto> fill_of it))"

definition build_incoming :: "(nat \<Rightarrow> pystr) \<Rightarrow> update_item list \<Rightarrow> (pystr \<rightharpoonup> fill)" where
  "build_incoming up raw_itens = foldl (incoming_step up) Map.empty raw_itens"

text \<open>The body of the loop over the sorted catalog (lines 179 to 201); \<open>op_name\<close> is the
  value of its variable \<open>nome\<close> (line 181).\<close>

definition op_name :: "(nat \<Rightarrow> pystr) \<Rightarrow> catalog_entry \<Rightarrow> pystr" where
  "op_name up c = norm up (py_get (c_nome c) (Some (c_id c)))"

definition final_item :: "(nat \<Rightarrow> pystr) \<Rightarrow> (pystr \<rightharpoonup> fill) \<Rightarrow> catalog_entry \<Rightarrow> status_record" where
  "final_item up incoming c =
     (let cid = c_id c;
          nome = op_name up c
      in case incoming nome of
           Some f \<Rightarrow>
             \<lparr>s_id = cid, s_status = f_status f, s_ultimo_job = f_ultimo_job f,
              s_termino_real = f_termino_real f, s_fim_de_jogo = f_fim_de_jogo f,
              s_nota = f_nota f\<rparr>
         | None \<Rightarrow>
             \<lparr>s_id = cid, s_status = str ''sem_exec'', s_ultimo_job = JStr (str ''-''),
              s_termino_real = JStr (str ''-''), s_fim_de_jogo = False, s_nota = []\<rparr>)"

definition itens_final ::
  "(nat \<Rightarrow> pystr) \<Rightarrow> catalog_entry list \<Rightarrow> update_item list \<Rightarrow> status_record list" where
  "itens_final up catalogo raw_itens =
     (let incoming = build_incoming up raw_itens;
          catalogo_sorted = sort_catalogo up catalogo
      in map (final_item up incoming) catalogo_sorted)"

text \<open>
  Lines 151 to 203 of \<open>main\<close>: the day is created when missing, its time stamp is set from the
  payload or from the clock (\<open>now\<close>), and its items are replaced. The lookup
  \<open>data["dias"][day]\<close> is written with its \<open>KeyError\<close>.
\<close>

definition reconcile ::
  "(nat \<Rightarrow> pystr) \<Rightarrow> store \<Rightarrow> payload \<Rightarrow> pystr \<Rightarrow> pystr \<Rightarrow> py_error + store" where
  "reconcile up data pl day now =
     (let data1 = ensure_day data day
      in case dias data1 day of
           None \<Rightarrow> Inl (KeyError day)
         | Some dia_obj \<Rightarrow>
             (let updatedAt = (case p_updatedAt pl of
                                 None \<Rightarrow> now
                               | Some u \<Rightarrow> if u = [] then now else u);
                  dia1 = dia_obj\<lparr>d_updatedAt := updatedAt\<rparr>;
                  dia2 = dia1\<lparr>d_itens := itens_final up (catalogo_malhas data1) (p_itens pl)\<rparr>
              in Inr (data1\<lparr>dias := (dias data1)(day \<mapsto> dia2)\<rparr>)))"

section \<open>The report (preencher\_malhas.py)\<close>

text \<open>The six glyphs: the yellow, green, blue and red circles (U+1F7E1, U+1F7E2, U+1F535,
  U+1F534) and the white and black circles (U+26AA, U+26AB).\<close>

definition EMOJI_YELLOW :: pystr where
  "EMOJI_YELLOW = [0x1F7E1]"

definition EMOJI_GREEN :: pystr where
  "EMOJI_GREEN = [0x1F7E2]"

definition EMOJI_BLUE :: pystr where
  "EMOJI_BLUE = [0x1F535]"

definition EMOJI_RED :: pystr where
  "EMOJI_RED = [0x1F534]"

definition EMOJI_WHITE :: pystr where
  "EMOJI_WHITE = [0x26AA]"

definition EMOJI_BLACK :: pystr where
  "EMOJI_BLACK = [0x26AB]"

text \<open>\<open>STATUS_MAP\<close>, in the order its items are iterated.\<close>

definition STATUS_MAP :: "(pystr \<times> pystr option \<times> pystr option) list" where
  "STATUS_MAP =
     [(str ''1'', Some (str ''exec''), Some EMOJI_YELLOW),
      (str ''2'', Some (str ''ok''), Some EMOJI_GREEN),
      (str ''3'', Some (str ''contingencia''), Some EMOJI_BLUE),
      (str ''4'', Some (str ''abend''), Some EMOJI_RED),
      (str ''5'', Some (str ''nao_comecou''), Some EMOJI_WHITE),
      (str ''6'', Some (str ''aguardando''), Some EMOJI_BLACK),
      (str ''7'', Some (str ''sem_exec''), Some EMOJI_WHITE),
      (str ''0'', None, None)]"

text \<open>\<open>br_date\<close>: the unpacking of \<open>ymd.split("-")\<close> into three names raises \<open>ValueError\<close>
  unless there are exactly three fields (0x2D is the hyphen).\<close>

definition br_date :: "pystr \<Rightarrow> py_error + pystr" where
  "br_date ymd =
     (case py_split_on 0x2D ymd of
        [y, m, d] \<Rightarrow> Inr (d @ str ''/'' @ m @ str ''/'' @ y)
      | _ \<Rightarrow> Inl ValueError)"

text \<open>The inner loop over \<open>STATUS_MAP.items()\<close>: the emoji of the first entry whose key is the
  row's status.\<close>

fun find_emoji :: "(pystr \<times> pystr option \<times> pystr option) list \<Rightarrow> pystr \<Rightarrow> pystr option" where
  "find_emoji [] st = None"
| "find_emoji ((n, k, e) # rest) st = (if k = Some st then e else find_emoji rest st)"

text \<open>A row \<open>(categoria, nome, status_key, fim_de_jogo, obs)\<close>.\<close>

type_synonym row = "pystr \<times> pystr \<times> pystr \<times> bool \<times> pystr"

definition row_line :: "row \<Rightarrow> pystr" where
  "row_line r =
     (case r of (cat, nome, st, fim, obs) \<Rightarrow>
        (let emoji = (case find_emoji STATUS_MAP st of
                        None \<Rightarrow> EMOJI_WHITE
                      | Some e \<Rightarrow> if e = [] then EMOJI_WHITE else e);
             line = emoji @ str '' '' @ nome
         in if obs \<noteq> [] then line @ str ''  ('' @ obs @ str '')'' else line))"

text \<open>The loop over the rows: \<open>groups[cat].append(line)\<close> raises \<open>KeyError\<close> for a category
  that is not a key of \<open>groups\<close>.\<close>

fun add_rows :: "(pystr \<rightharpoonup> pystr list) \<Rightarrow> row list \<Rightarrow> py_error + (pystr \<rightharpoonup> pystr list)" where
  "add_rows groups [] = Inr groups"
| "add_rows groups (r # rest) =
     (case groups (fst r) of
        None \<Rightarrow> Inl (KeyError (fst r))
      | Some ls \<Rightarrow> add_rows (groups(fst r \<mapsto> ls @ [row_line r])) rest)"

text \<open>The loop over \<open>ORDEM_CATEGORIAS\<close> that appends one section for each category.\<close>

fun sections :: "(pystr \<rightharpoonup> pystr list) \<Rightarrow> pystr list \<Rightarrow> py_error + pystr list" where
  "sections groups [] = Inr []"
| "sections groups (cat # cats) =
     (case groups cat of
        None \<Rightarrow> Inl (KeyError cat)
      | Some ls \<Rightarrow>
          (case sections groups cats of
             Inl e \<Rightarrow> Inl e
           | Inr out \<Rightarrow>
               Inr ([cat @ str '':\<newline>'']
                    @ (if ls \<noteq> [] then map (\<lambda>x. str ''- '' @ x) ls else [str ''- (sem itens)''])
                    @ [[]]
                    @ out)))"

definition LEGENDA :: "pystr list" where
  "LEGENDA =
     [str ''Legenda:'',
      [0x1F7E1] @ str '' Em execu'' @ [0xE7, 0xE3] @ str ''o | '' @ [0x1F7E2]
        @ str '' Finalizado | '' @ [0x1F535] @ str '' Conting'' @ [0xEA] @ str ''ncia | ''
        @ [0x1F534] @ str '' Abend | '' @ [0x26AA] @ str '' N'' @ [0xE3] @ str ''o come''
        @ [0xE7] @ str ''ou/Sem execu'' @ [0xE7, 0xE3] @ str ''o | '' @ [0x26AB]
        @ str '' Aguardando condi'' @ [0xE7, 0xE3] @ str ''o'',
      [0x26AA] @ str ''/'' @ [0x1F535] @ str '' em '' @ [0x201C] @ str ''Fim de jogo''
        @ [0x201D] @ str '' = n'' @ [0xE3] @ str ''o validado / validado'']"

definition groups0 :: "pystr \<rightharpoonup> pystr list" where
  "groups0 = map_of (map (\<lambda>c. (c, [])) ORDEM_CATEGORIAS)"

definition build_whatsapp_report :: "pystr \<Rightarrow> row list \<Rightarrow> py_error + pystr" where
  "build_whatsapp_report dia rows =
     (case add_rows groups0 rows of
        Inl e \<Rightarrow> Inl e
      | Inr groups \<Rightarrow>
          (case br_date dia of
             Inl e \<Rightarrow> Inl e
           | Inr d \<Rightarrow>
               (case sections groups ORDEM_CATEGORIAS of
                  Inl e \<Rightarrow> Inl e
                | Inr secs \<Rightarrow>
                    Inr (py_join (str ''\<newline>'')
                          ([str ''Boa noite.\<newline>'', str ''Acompanhamento Malhas\<newline>'',
                            str ''Odate: '' @ d @ str ''\<newline>'']
                           @ secs @ LEGENDA)))))"

text \<open>\<open>index_catalogo\<close>: the catalog by id, a later entry overwriting an earlier one.\<close>

definition index_catalogo :: "store \<Rightarrow> (pystr \<rightharpoonup> catalog_entry)" where
  "index_catalogo data = foldl (\<lambda>idx c. idx(c_id c \<mapsto> c)) Map.empty (catalogo_malhas data)"

text \<open>
  Lines 320 to 328 of \<open>main\<close>: the row of a day item. An item whose id is not in the catalog
  gets the empty dictionary for \<open>c\<close>, hence the category \<open>"-"\<close> and its own id as name.
\<close>

definition report_row :: "(nat \<Rightarrow> pystr) \<Rightarrow> (pystr \<rightharpoonup> catalog_entry) \<Rightarrow> status_record \<Rightarrow> row" where
  "report_row up cat_by_id it =
     (let c = cat_by_id (s_id it);
          cat = (case c of None \<Rightarrow> str ''-'' | Some e \<Rightarrow> get_or (c_categoria e) (str ''-''));
          nome = normalize_name up
                   (case c of None \<Rightarrow> Some (s_id it) | Some e \<Rightarrow> py_get (c_nome e) (Some (s_id it)))
      in (cat, nome, s_status it, s_fim_de_jogo it, py_strip (s_nota it)))"

definition report_rows :: "(nat \<Rightarrow> pystr) \<Rightarrow> store \<Rightarrow> status_record list \<Rightarrow> row list" where
  "report_rows up data itens = map (report_row up (index_catalogo data)) itens"

section \<open>Persistence and the two entry points\<close>

text \<open>
  The file system is a map from path strings to contents. A file holds a whole JSON document
  or, while it is being written, a truncated one (\<open>Truncated\<close>), which \<open>json.load\<close> rejects.
  The two document shapes are kept apart; a document of the other shape reads as one with none
  of the expected keys. Keys the programs never read are not modelled. The console receives
  the lines the programs print and the traceback the interpreter writes for an exception that
  nothing catches.
\<close>

datatype document = StoreDoc store | UpdateDoc payload

datatype content = Json document | Truncated

datatype console_line = Printed pystr | Traceback py_error

record world =
  files :: "pystr \<rightharpoonup> content"
  console :: "console_line list"

datatype outcome = Returned | SysExit nat | Uncaught py_error

text \<open>
  The end of the process: \<open>main\<close> returns (status 0), \<open>sys.exit(n)\<close> ends it with status
  \<open>n\<close>, and for an uncaught exception the interpreter writes the traceback to the console and
  ends with status 1.
\<close>

fun exit_status :: "outcome \<Rightarrow> nat" where
  "exit_status Returned = 0"
| "exit_status (SysExit n) = n"
| "exit_status (Uncaught e) = 1"

definition interpreter :: "outcome \<times> world \<Rightarrow> nat \<times> world" where
  "interpreter r =
     (exit_status (fst r),
      (case fst r of
         Uncaught e \<Rightarrow> (snd r)\<lparr>console := console (snd r) @ [Traceback e]\<rparr>
       | _ \<Rightarrow> snd r))"

definition as_store :: "document \<Rightarrow> store" where
  "as_store d = (case d of StoreDoc s \<Rightarrow> s
                 | UpdateDoc p \<Rightarrow> \<lparr>catalogo_malhas = [], dias = Map.empty\<rparr>)"

definition as_payload :: "document \<Rightarrow> payload" where
  "as_payload d = (case d of UpdateDoc p \<Rightarrow> p
                   | StoreDoc s \<Rightarrow> \<lparr>p_date = None, p_updatedAt = None, p_itens = []\<rparr>)"

definition path_exists :: "pystr \<Rightarrow> world \<Rightarrow> bool" where
  "path_exists p w = (files w p \<noteq> None)"

definition py_print :: "pystr \<Rightarrow> world \<Rightarrow> world" where
  "py_print line w = w\<lparr>console := console w @ [Printed line]\<rparr>"

definition load_json :: "pystr \<Rightarrow> world \<Rightarrow> py_error + document" where
  "load_json p w =
     (case files w p of
        None \<Rightarrow> Inl (FileNotFoundError p)
      | Some Truncated \<Rightarrow> Inl JSONDecodeError
      | Some (Json d) \<Rightarrow> Inr d)"

text \<open>
  The three statements of \<open>save_json\<close>. \<open>open(tmp, "w")\<close> creates or empties the file;
  when the \<open>with\<close> block ends the whole document has been written and the file is closed;
  \<open>os.replace\<close> renames in one step (for a missing source it raises, which cannot happen
  after the first two statements; the model leaves the world as it is).
\<close>

definition open_w :: "pystr \<Rightarrow> world \<Rightarrow> world" where
  "open_w p w = w\<lparr>files := (files w)(p \<mapsto> Truncated)\<rparr>"

definition json_dump :: "document \<Rightarrow> pystr \<Rightarrow> world \<Rightarrow> world" where
  "json_dump d p w = w\<lparr>files := (files w)(p \<mapsto> Json d)\<rparr>"

definition os_replace :: "pystr \<Rightarrow> pystr \<Rightarrow> world \<Rightarrow> world" where
  "os_replace src dst w =
     (case files w src of
        None \<Rightarrow> w
      | Some c \<Rightarrow> w\<lparr>files := ((files w)(src := None))(dst \<mapsto> c)\<rparr>)"

text \<open>
  The worlds a call of \<open>save_json\<close> goes through: before the call and after each of its three
  statements. A run that is cut short stops in one of the states before the last.
  \<open>save_json_states\<close> is the function of \<^verbatim>\<open>preencher_malhas.py\<close> (\<open>tmp = path + ".tmp"\<close>).
\<close>

definition save_json_states :: "pystr \<Rightarrow> document \<Rightarrow> world \<Rightarrow> world list" where
  "save_json_states p d w =
     (let tmp = p @ str ''.tmp'';
          w1 = open_w tmp w;
          w2 = json_dump d tmp w1;
          w3 = os_replace tmp p w2
      in [w, w1, w2, w3])"

definition save_json :: "pystr \<Rightarrow> document \<Rightarrow> world \<Rightarrow> world" where
  "save_json p d w = last (save_json_states p d w)"

text \<open>
  \<open>Path.name\<close>, \<open>Path.suffix\<close> and \<open>Path.with_suffix\<close> on a path string: the name is what
  follows the last slash (0x2F), and its suffix starts at its last dot (0x2E) when that dot is
  neither its first nor its last code point. (\<open>with_suffix\<close> raises for an empty name; the
  paths here have one.)
\<close>

definition path_name :: "pystr \<Rightarrow> pystr" where
  "path_name p = rev (takeWhile (\<lambda>c. c \<noteq> 0x2F) (rev p))"

definition path_suffix :: "pystr \<Rightarrow> pystr" where
  "path_suffix p =
     (let name = path_name p;
          ext = rev (takeWhile (\<lambda>c. c \<noteq> 0x2E) (rev name))
      in if 0x2E \<in> set name \<and> ext \<noteq> [] \<and> Suc (length ext) < length name
         then 0x2E # ext else [])"

definition with_suffix :: "pystr \<Rightarrow> pystr \<Rightarrow> pystr" where
  "with_suffix p suffix = take (length p - length (path_suffix p)) p @ suffix"

text \<open>\<open>save_json\<close> of \<^verbatim>\<open>scripts/update_status.py\<close> (\<open>tmp = path.with_suffix(".tmp")\<close>).\<close>

definition save_json_u_states :: "pystr \<Rightarrow> document \<Rightarrow> world \<Rightarrow> world list" where
  "save_json_u_states p d w =
     (let tmp = with_suffix p (str ''.tmp'');
          w1 = open_w tmp w;
          w2 = json_dump d tmp w1;
          w3 = os_replace tmp p w2
      in [w, w1, w2, w3])"

definition save_json_u :: "pystr \<Rightarrow> document \<Rightarrow> world \<Rightarrow> world" where
  "save_json_u p d w = last (save_json_u_states p d w)"

text \<open>
  \<open>ROOT / name\<close>: an absolute \<open>name\<close> replaces the root. \<open>root\<close> is the directory above
  the script, a parameter of the model.
\<close>

definition path_join :: "pystr \<Rightarrow> pystr \<Rightarrow> pystr" where
  "path_join root name' = (if take 1 name' = str ''/'' then name' else root @ str ''/'' @ name')"

definition MALHAS_JSON :: "pystr \<Rightarrow> pystr" where
  "MALHAS_JSON root = root @ str ''/malhas.json''"

definition MSG_USO :: pystr where
  "MSG_USO = str ''Uso: python scripts/update_status.py updates/AAAA-MM-DD.json''"

definition MSG_NAO_ENCONTRADO :: pystr where
  "MSG_NAO_ENCONTRADO = str ''Arquivo n'' @ [0xE3] @ str ''o encontrado: ''"

definition MSG_DATE :: pystr where
  "MSG_DATE = str ''O arquivo de update precisa ter o campo '' @ [0x27] @ str ''date''
                @ [0x27] @ str '' em YYYY-MM-DD''"

text \<open>
  \<open>main\<close> of \<^verbatim>\<open>scripts/update_status.py\<close>. \<open>argv\<close> is \<open>sys.argv\<close> and \<open>now\<close> the clock's
  time stamp. The catalog index built at line 143 is never read and is left out.
\<close>

definition main_update ::
  "(nat \<Rightarrow> pystr) \<Rightarrow> pystr \<Rightarrow> pystr \<Rightarrow> pystr list \<Rightarrow> world \<Rightarrow> outcome \<times> world" where
  "main_update up root now argv w =
     (if length argv < 2 then (SysExit 1, py_print MSG_USO w)
      else
        let update_path = path_join root (argv ! 1)
        in if \<not> path_exists update_path w
           then (SysExit 1, py_print (MSG_NAO_ENCONTRADO @ update_path) w)
           else
             (case load_json (MALHAS_JSON root) w of
                Inl e \<Rightarrow> (Uncaught e, w)
              | Inr data_doc \<Rightarrow>
                  (case load_json update_path w of
                     Inl e \<Rightarrow> (Uncaught e, w)
                   | Inr payload_doc \<Rightarrow>
                       (let data = as_store data_doc;
                            pl = as_payload payload_doc;
                            day = get_or (p_date pl) []
                        in if day = [] then (SysExit 1, py_print MSG_DATE w)
                           else
                             (case reconcile up data pl day now of
                                Inl e \<Rightarrow> (Uncaught e, w)
                              | Inr data' \<Rightarrow>
                                  (Returned,
                                   py_print (str ''OK: atualizado malhas.json para o dia '' @ day
                                             @ str '' usando '' @ path_name update_path)
                                     (save_json_u (MALHAS_JSON root) (StoreDoc data') w)))))))"

definition ARQUIVO_JSON :: pystr where
  "ARQUIVO_JSON = str ''malhas.json''"

definition MSG_NAO_ACHEI :: pystr where
  "MSG_NAO_ACHEI = str ''N'' @ [0xE3] @ str ''o achei malhas.json na pasta atual.''"

definition MSG_COLOQUE :: pystr where
  "MSG_COLOQUE = str ''Coloque este script na mesma pasta do malhas.json e rode novamente.''"

text \<open>
  \<open>main\<close> of \<^verbatim>\<open>preencher_malhas.py\<close>: the guard of lines 239 to 242, followed by the
  interactive session, which is a parameter (\<open>session\<close>) of the model.
\<close>

definition main_preencher :: "(world \<Rightarrow> outcome \<times> world) \<Rightarrow> world \<Rightarrow> outcome \<times> world" where
  "main_preencher session w =
     (if \<not> path_exists ARQUIVO_JSON w
      then (Returned, py_print MSG_COLOQUE (py_print MSG_NAO_ACHEI w))
      else session w)"

section \<open>Properties of the uppercase mapping, and an instance\<close>

text \<open>
  What the statements below assume of the interpreter's uppercase mapping, where they assume
  anything. \<open>upper_stable\<close>: a code point of an uppercase mapping is its own uppercase
  mapping. \<open>upper_ascii\<close>: on ASCII the mapping sends \<open>a..z\<close> to \<open>A..Z\<close> and changes nothing
  else. Both hold of the Unicode case tables (an exhaustive run over all code points of
  CPython 3.11 confirms them).
\<close>

definition upper_stable :: "(nat \<Rightarrow> pystr) \<Rightarrow> bool" where
  "upper_stable up = (\<forall>c. \<forall>d\<in>set (up c). up d = [d])"

definition upper_ascii :: "(nat \<Rightarrow> pystr) \<Rightarrow> bool" where
  "upper_ascii up = (\<forall>c<128. up c = (if 0x61 \<le> c \<and> c \<le> 0x7A then [c - 32] else [c]))"

text \<open>
  An instance for the examples: the uppercase mapping of the code points below 256 (with the
  two-letter mapping of U+00DF and the mappings of U+00B5 and U+00FF out of this range), and
  the identity above.
\<close>

definition up_latin1 :: "nat \<Rightarrow> pystr" where
  "up_latin1 c =
     (if 0x61 \<le> c \<and> c \<le> 0x7A then [c - 32]
      else if c = 0xB5 then [0x39C]
      else if c = 0xDF then [0x53, 0x53]
      else if 0xE0 \<le> c \<and> c \<le> 0xFE \<and> c \<noteq> 0xF7 then [c - 32]
      else if c = 0xFF then [0x178]
      else [c])"

section \<open>Auxiliary notions of the proofs\<close>

text \<open>
  \<open>tidy b s\<close>: the only white space in \<open>s\<close> are single spaces between words, and \<open>s\<close> does
  not end with one; \<open>b\<close> tells whether \<open>s\<close> may start with a space or be empty.
\<close>

fun tidy :: "bool \<Rightarrow> pystr \<Rightarrow> bool" where
  "tidy b [] = b"
| "tidy b (c # cs) =
     (if c = 0x20 then b \<and> tidy False cs else \<not> py_isspace c \<and> tidy True cs)"

section \<open>Example inputs\<close>

definition ex_catalogo :: "catalog_entry list" where
  "ex_catalogo =
     [\<lparr>c_id = str ''b'', c_nome = Val (str ''zzz''), c_categoria = Some (str ''Semanal'')\<rparr>,
      \<lparr>c_id = str ''x'', c_nome = Val (str ''foo''), c_categoria = Some (str ''Outra'')\<rparr>,
      \<lparr>c_id = str ''c'', c_nome = Val (str ''abc''), c_categoria = Some (str ''Rotativos'')\<rparr>,
      \<lparr>c_id = str ''a'', c_nome = Val (str '' cma ''), c_categoria = Some (str ''Rotativos'')\<rparr>]"

definition ex_store :: store where
  "ex_store = \<lparr>catalogo_malhas = ex_catalogo, dias = Map.empty\<rparr>"

definition ex_payload_empty :: payload where
  "ex_payload_empty = \<lparr>p_date = Some (str ''2026-02-01''), p_updatedAt = None, p_itens = []\<rparr>"

definition ex_foo_entry :: catalog_entry where
  "ex_foo_entry = \<lparr>c_id = str ''a'', c_nome = Val (str ''FOO''), c_categoria = Some (str ''Rotativos'')\<rparr>"

definition ex_item_foo_ok :: update_item where
  "ex_item_foo_ok =
     \<lparr>u_nome = Some (str ''foo''), u_status = JStr (str ''ok''), u_ultimo_job = JNull,
      u_termino_real = JNull, u_fim_de_jogo = JBool True, u_nota = None\<rparr>"

definition ex_item_foo_abend :: update_item where
  "ex_item_foo_abend =
     \<lparr>u_nome = Some (str '' Foo ''), u_status = JStr (str ''abend''),
      u_ultimo_job = JStr (str ''JOB1''), u_termino_real = JNull, u_fim_de_jogo = JNull,
      u_nota = Some (str '' falhou '')\<rparr>"

definition ex_blank_entry :: catalog_entry where
  "ex_blank_entry = \<lparr>c_id = str ''a'', c_nome = Val (str '' ''), c_categoria = Some (str ''Rotativos'')\<rparr>"

definition ex_item_blank_ok :: update_item where
  "ex_item_blank_ok =
     \<lparr>u_nome = None, u_status = JStr (str ''ok''), u_ultimo_job = JNull, u_termino_real = JNull,
      u_fim_de_jogo = JBool True, u_nota = None\<rparr>"

text \<open>
  The record of an operation as the amended claim C2 words it, to be compared with the one
  the source builds: the fields come from the last item of the payload whose normalized name
  is not empty and equals the normalized name of the operation.
\<close>

definition spec_record :: "(nat \<Rightarrow> pystr) \<Rightarrow> update_item list \<Rightarrow> catalog_entry \<Rightarrow> status_record" where
  "spec_record up raw c =
     (case filter (\<lambda>it. item_name up it \<noteq> [] \<and> item_name up it = op_name up c) raw of
        [] \<Rightarrow>
          \<lparr>s_id = c_id c, s_status = str ''sem_exec'', s_ultimo_job = JStr (str ''-''),
           s_termino_real = JStr (str ''-''), s_fim_de_jogo = False, s_nota = []\<rparr>
      | m # ms \<Rightarrow>
          (let it = last (m # ms)
           in \<lparr>s_id = c_id c,
               s_status = (case u_status it of
                             JStr s \<Rightarrow> if s \<in> set VALID_STATUS then s else str ''sem_exec''
                           | _ \<Rightarrow> str ''sem_exec''),
               s_ultimo_job = (if py_bool (u_ultimo_job it) then u_ultimo_job it else JStr (str ''-'')),
               s_termino_real =
                 (if py_bool (u_termino_real it) then u_termino_real it else JStr (str ''-'')),
               s_fim_de_jogo = py_bool (u_fim_de_jogo it),
               s_nota = py_strip (case u_nota it of None \<Rightarrow> [] | Some n \<Rightarrow> n)\<rparr>))"

definition ex_foo_store :: store where
  "ex_foo_store = \<lparr>catalogo_malhas = [ex_foo_entry], dias = Map.empty\<rparr>"

definition ex_payload_dup :: payload where
  "ex_payload_dup =
     \<lparr>p_date = Some (str ''2026-02-01''), p_updatedAt = None,
      p_itens = [ex_item_foo_ok, ex_item_foo_abend]\<rparr>"

definition ex_payload_dup_rev :: payload where
  "ex_payload_dup_rev =
     \<lparr>p_date = Some (str ''2026-02-01''), p_updatedAt = None,
      p_itens = [ex_item_foo_abend, ex_item_foo_ok]\<rparr>"

definition ex_payload_uniq :: payload where
  "ex_payload_uniq =
     \<lparr>p_date = Some (str ''2026-02-01''), p_updatedAt = None,
      p_itens = [ex_item_foo_ok, ex_item_blank_ok]\<rparr>"

definition ex_payload_uniq_rev :: payload where
  "ex_payload_uniq_rev =
     \<lparr>p_date = Some (str ''2026-02-01''), p_updatedAt = None,
      p_itens = [ex_item_blank_ok, ex_item_foo_ok]\<rparr>"

text \<open>
  The report as the specification words it (Section 4.4), to be compared with
  \<open>build_whatsapp_report\<close>: the glyph of a status is read from the fixed mapping, the neutral
  glyph for any other status; a line is the glyph, the display name, and the note in
  parentheses when it is not empty; a section is the category heading, one line per row of the
  category in the order of the rows, or the placeholder line, and a blank line; the report is
  the three header lines, one section per category of \<open>ORDEM_CATEGORIAS\<close> in that order, and
  the legend, joined by line feeds.
\<close>

definition spec_glyph :: "pystr \<Rightarrow> pystr" where
  "spec_glyph st =
     (if st = str ''exec'' then EMOJI_YELLOW
      else if st = str ''ok'' then EMOJI_GREEN
      else if st = str ''contingencia'' then EMOJI_BLUE
      else if st = str ''abend'' then EMOJI_RED
      else if st = str ''nao_comecou'' then EMOJI_WHITE
      else if st = str ''aguardando'' then EMOJI_BLACK
      else if st = str ''sem_exec'' then EMOJI_WHITE
      else EMOJI_WHITE)"

definition spec_line :: "row \<Rightarrow> pystr" where
  "spec_line r =
     (case r of (cat, nome, st, fim, obs) \<Rightarrow>
        spec_glyph st @ str '' '' @ nome @ (if obs = [] then [] else str ''  ('' @ obs @ str '')''))"

definition spec_section :: "row list \<Rightarrow> pystr \<Rightarrow> pystr list" where
  "spec_section rows cat =
     [cat @ str '':\<newline>'']
     @ (case filter (\<lambda>r. fst r = cat) rows of
          [] \<Rightarrow> [str ''- (sem itens)'']
        | r # rs \<Rightarrow> map (\<lambda>x. str ''- '' @ spec_line x) (r # rs))
     @ [[]]"


definition ex_rows :: "row list" where
  "ex_rows = [(str ''Rotativos'', str ''FOO'', str ''ok'', True, []),
              (str ''Semanal'', str ''BAR'', str ''atrasado'', False, str ''rever'')]"

definition ex_rows_bad :: "row list" where
  "ex_rows_bad = ex_rows @ [(str ''-'', str ''ZZ'', str ''sem_exec'', False, [])]"

text \<open>The directory part of a path string: what precedes its name.\<close>

definition path_parent :: "pystr \<Rightarrow> pystr" where
  "path_parent p = take (length p - length (path_name p)) p"

definition ex_argv :: "pystr list" where
  "ex_argv = [str ''scripts/update_status.py'', str ''updates/2026-02-01.json'']"

definition ex_payload_foo :: payload where
  "ex_payload_foo =
     \<lparr>p_date = Some (str ''2026-02-01''), p_updatedAt = None, p_itens = [ex_item_foo_ok]\<rparr>"

definition ex_payload_nodate :: payload where
  "ex_payload_nodate = \<lparr>p_date = None, p_updatedAt = None, p_itens = [ex_item_foo_ok]\<rparr>"

definition ex_world_store_only :: world where
  "ex_world_store_only =
     \<lparr>files = [str ''/repo/malhas.json'' \<mapsto> Json (StoreDoc ex_foo_store)], console = []\<rparr>"

definition ex_world_update_only :: world where
  "ex_world_update_only =
     \<lparr>files = [str ''/repo/updates/2026-02-01.json'' \<mapsto> Json (UpdateDoc ex_payload_foo)],
      console = []\<rparr>"

definition ex_world_nodate :: world where
  "ex_world_nodate =
     \<lparr>files = [str ''/repo/malhas.json'' \<mapsto> Json (StoreDoc ex_foo_store),
               str ''/repo/updates/2026-02-01.json'' \<mapsto> Json (UpdateDoc ex_payload_nodate)],
      console = []\<rparr>"

definition ex_world_both :: world where
  "ex_world_both =
     \<lparr>files = [str ''/repo/malhas.json'' \<mapsto> Json (StoreDoc ex_foo_store),
               str ''/repo/updates/2026-02-01.json'' \<mapsto> Json (UpdateDoc ex_payload_foo)],
      console = []\<rparr>"

section \<open>Literals\<close>

lemma str_eq_iff [simp]: "str a = str b \<longleftrightarrow> a = b"
  unfolding str_def by (rule inj_map_eq_map) (rule inj_of_char)

lemma str_Nil [simp]: "str [] = []"
  by (simp add: str_def)

lemma str_eq_Nil [simp]: "str a = [] \<longleftrightarrow> a = []" "[] = str a \<longleftrightarrow> a = []"
  by (auto simp: str_def)

section \<open>Idempotence of the normalizer\<close>

lemma sp_space: "py_isspace 0x20" by (simp add: py_isspace_def)

lemma tidy_word_append:
  "w \<noteq> [] \<Longrightarrow> \<forall>c\<in>set w. \<not> py_isspace c \<Longrightarrow> tidy b (w @ r) = tidy True r"
proof (induction w arbitrary: b)
  case Nil then show ?case by simp
next
  case (Cons c w)
  then have c: "\<not> py_isspace c" "c \<noteq> 0x20" using sp_space by auto
  show ?case
  proof (cases "w = []")
    case True with c show ?thesis by simp
  next
    case False with Cons c show ?thesis by simp
  qed
qed

lemma split_ws_words:
  "\<forall>c\<in>set cur. \<not> py_isspace c \<Longrightarrow> w \<in> set (split_ws cur s) \<Longrightarrow>
   w \<noteq> [] \<and> (\<forall>c\<in>set w. \<not> py_isspace c)"
proof (induction s arbitrary: cur)
  case Nil
  then show ?case by (cases "cur = []") simp_all
next
  case (Cons c cs)
  show ?case
  proof (cases "py_isspace c")
    case True
    with Cons.prems(2) have "(cur \<noteq> [] \<and> w = cur) \<or> w \<in> set (split_ws [] cs)"
      by (cases "cur = []") simp_all
    then show ?thesis
    proof
      assume "cur \<noteq> [] \<and> w = cur"
      with Cons.prems(1) show ?thesis by simp
    next
      assume "w \<in> set (split_ws [] cs)"
      then show ?thesis by (rule Cons.IH[rotated]) simp
    qed
  next
    case False
    with Cons.prems(2) have "w \<in> set (split_ws (cur @ [c]) cs)" by simp
    then show ?thesis
      by (rule Cons.IH[rotated]) (use False Cons.prems(1) in auto)
  qed
qed

lemma str_space: "str '' '' = [0x20]"
  by (simp add: str_def)

lemma tidy_join:
  "\<forall>w\<in>set ws. w \<noteq> [] \<and> (\<forall>c\<in>set w. \<not> py_isspace c) \<Longrightarrow> ws \<noteq> [] \<Longrightarrow>
   tidy b (py_join (str '' '') ws)"
  unfolding str_space
proof (induction "[0x20::nat]" ws arbitrary: b rule: py_join.induct)
  case 1 then show ?case by simp
next
  case (2 x)
  then show ?case using tidy_word_append[of x b "[]"] by simp
next
  case (3 x y ys)
  then have "tidy False (py_join [0x20] (y # ys))" by simp
  then show ?case using 3 tidy_word_append[of x b "[0x20] @ py_join [0x20] (y # ys)"] by simp
qed

lemma tidy_weaken: "tidy False s \<Longrightarrow> tidy b s"
  by (cases s) (auto split: if_splits)

lemma py_join_Cons: "ys \<noteq> [] \<Longrightarrow> py_join sep (x # ys) = x @ sep @ py_join sep ys"
  by (cases ys) simp_all

lemma join_split_tidy:
  "tidy b s \<Longrightarrow> b = (cur \<noteq> []) \<Longrightarrow> py_join (str '' '') (split_ws cur s) = cur @ s"
proof (induction s arbitrary: cur b)
  case Nil then show ?case by simp
next
  case (Cons c cs)
  show ?case
  proof (cases "c = 0x20")
    case True
    with Cons.prems have b: "cur \<noteq> []" and t: "tidy False cs" by auto
    from Cons.IH[OF t, of "[]"] have j: "py_join (str '' '') (split_ws [] cs) = cs" by simp
    from t have "cs \<noteq> []" by (cases cs) auto
    with j have ne: "split_ws [] cs \<noteq> []" by auto
    have "split_ws cur (c # cs) = cur # split_ws [] cs"
      using True b by (simp add: sp_space)
    then have "py_join (str '' '') (split_ws cur (c # cs))
        = cur @ str '' '' @ py_join (str '' '') (split_ws [] cs)"
      using py_join_Cons[OF ne, of "str '' ''" cur] by simp
    then show ?thesis using j True by (simp add: str_space)
  next
    case False
    with Cons.prems have ns: "\<not> py_isspace c" and t: "tidy True cs" by auto
    have "split_ws cur (c # cs) = split_ws (cur @ [c]) cs" using ns by simp
    moreover have "py_join (str '' '') (split_ws (cur @ [c]) cs) = (cur @ [c]) @ cs"
      by (rule Cons.IH[OF t]) simp
    ultimately show ?thesis by simp
  qed
qed

lemma tidy_hd: "tidy False s \<Longrightarrow> s \<noteq> [] \<and> \<not> py_isspace (hd s)"
  by (cases s) (auto split: if_splits)

lemma tidy_last: "tidy b s \<Longrightarrow> s \<noteq> [] \<Longrightarrow> \<not> py_isspace (last s)"
proof (induction s arbitrary: b)
  case Nil then show ?case by simp
next
  case (Cons c cs)
  show ?case
  proof (cases "cs = []")
    case True
    with Cons.prems show ?thesis by (simp split: if_splits)
  next
    case False
    from Cons.prems obtain b' where "tidy b' cs" by (auto split: if_splits)
    with Cons.IH False show ?thesis by simp
  qed
qed

lemma strip_tidy: "tidy False s \<Longrightarrow> py_strip s = s"
proof -
  assume t: "tidy False s"
  then have ne: "s \<noteq> []" and h: "\<not> py_isspace (hd s)" using tidy_hd by auto
  from t ne have l: "\<not> py_isspace (last s)" by (rule tidy_last)
  from ne h have 1: "dropWhile py_isspace s = s" by (cases s) auto
  from ne l have 2: "dropWhile py_isspace (rev s) = rev s" by (cases "rev s") (auto simp: last_rev hd_rev)
  show ?thesis by (simp add: py_strip_def 1 2)
qed

lemma strip_nil: "py_strip [] = []" by (simp add: py_strip_def)

lemma TH3_len: "length TH3_EN_DASH = 8" "TH3_EN_DASH \<noteq> []"
  by (simp_all add: TH3_EN_DASH_def str_def)

lemma rep_Nil: "th3_replace [] = []"
  by (simp add: py_replace.simps TH3_EN_DASH_def str_def)

lemma rep_match: "th3_replace (TH3_EN_DASH @ r) = (str ''TH3 - OY'') @ th3_replace r"
  by (subst py_replace.simps) (simp add: TH3_len)

lemma rep_nomatch: "take 8 (c # cs) \<noteq> TH3_EN_DASH \<Longrightarrow> th3_replace (c # cs) = c # th3_replace cs"
  by (subst py_replace.simps) (simp add: TH3_len)

lemma rep_notT: "c \<noteq> 0x54 \<Longrightarrow> th3_replace (c # cs) = c # th3_replace cs"
  by (rule rep_nomatch) (auto simp: TH3_EN_DASH_def str_def)

lemma rep_cases:
  obtains (nil) "t = []"
  | (match) r where "t = TH3_EN_DASH @ r"
  | (step) c cs where "t = c # cs" "take 8 t \<noteq> TH3_EN_DASH"
proof (cases t)
  case Nil then show ?thesis by (rule nil)
next
  case (Cons c cs)
  show ?thesis
  proof (cases "take 8 t = TH3_EN_DASH")
    case True
    then have "t = TH3_EN_DASH @ drop 8 t" by (metis append_take_drop_id)
    then show ?thesis by (rule match)
  next
    case False with Cons show ?thesis by (rule step)
  qed
qed

lemma rep_notT_append: "0x54 \<notin> set w \<Longrightarrow> th3_replace (w @ x) = w @ th3_replace x"
  by (induction w) (simp_all add: rep_notT)

lemma new_Cons: "str ''TH3 - OY'' = 0x54 # str ''H3 - OY''" "0x54 \<notin> set (str ''H3 - OY'')"
  by (simp_all add: str_def)

lemma rep_new: "th3_replace ((str ''TH3 - OY'') @ x) = (str ''TH3 - OY'') @ th3_replace x"
proof -
  have 1: "take 8 (0x54 # (str ''H3 - OY'' @ x)) \<noteq> TH3_EN_DASH"
    by (simp add: TH3_EN_DASH_def str_def)
  have "th3_replace (0x54 # (str ''H3 - OY'' @ x)) = 0x54 # th3_replace (str ''H3 - OY'' @ x)"
    by (rule rep_nomatch[OF 1])
  moreover have "th3_replace (str ''H3 - OY'' @ x) = str ''H3 - OY'' @ th3_replace x"
    by (rule rep_notT_append[OF new_Cons(2)])
  ultimately show ?thesis by (simp only: new_Cons(1) append_Cons)
qed

lemma rep_head:
  assumes "th3_replace cs = x # r" "x \<noteq> 0x54"
  shows "\<exists>cs'. cs = x # cs' \<and> r = th3_replace cs'"
proof (cases cs rule: rep_cases)
  case nil with assms show ?thesis by (simp add: rep_Nil)
next
  case (match r')
  with assms have "str ''TH3 - OY'' @ th3_replace r' = x # r" by (simp add: rep_match)
  with assms(2) show ?thesis by (simp add: new_Cons(1))
next
  case (step c cs')
  with assms show ?thesis by (simp add: rep_nomatch)
qed

lemma rep_prefix:
  "th3_replace cs = w @ r \<Longrightarrow> 0x54 \<notin> set w \<Longrightarrow> \<exists>cs'. cs = w @ cs' \<and> r = th3_replace cs'"
proof (induction w arbitrary: cs)
  case Nil then show ?case by simp
next
  case (Cons x w)
  from Cons.prems have "th3_replace cs = x # (w @ r)" "x \<noteq> 0x54" by auto
  from rep_head[OF this] obtain cs1 where 1: "cs = x # cs1" "w @ r = th3_replace cs1" by blast
  from Cons.IH[of cs1] 1 Cons.prems obtain cs' where "cs1 = w @ cs'" "r = th3_replace cs'" by auto
  with 1 show ?case by simp
qed

lemma rep_idem: "th3_replace (th3_replace t) = th3_replace t"
proof (induction t rule: length_induct)
  case (1 t)
  show ?case
  proof (cases t rule: rep_cases)
    case nil then show ?thesis by (simp add: rep_Nil)
  next
    case (match r)
    then have "length r < length t" by (simp add: TH3_EN_DASH_def str_def)
    with 1 have "th3_replace (th3_replace r) = th3_replace r" by blast
    with match show ?thesis by (simp add: rep_match rep_new del: append.simps)
  next
    case (step c cs)
    with 1 have ih: "th3_replace (th3_replace cs) = th3_replace cs" by simp
    have "take 8 (c # th3_replace cs) \<noteq> TH3_EN_DASH"
    proof
      assume a: "take 8 (c # th3_replace cs) = TH3_EN_DASH"
      define w where "w = str ''H3 '' @ [0x2013] @ str '' OY''"
      have pw: "TH3_EN_DASH = 0x54 # w" by (simp add: TH3_EN_DASH_def str_def w_def)
      have lw: "length w = 7" and Tw: "0x54 \<notin> set w" by (simp_all add: w_def str_def)
      from a have "c # take 7 (th3_replace cs) = 0x54 # w" by (simp add: pw[symmetric])
      then have c: "c = 0x54" and t9: "take 7 (th3_replace cs) = w" by simp_all
      have "th3_replace cs = take 7 (th3_replace cs) @ drop 7 (th3_replace cs)" by simp
      with t9 have "th3_replace cs = w @ drop 7 (th3_replace cs)" by simp
      from rep_prefix[OF this Tw] obtain cs' where "cs = w @ cs'" by blast
      with c have "take 8 (c # cs) = TH3_EN_DASH" by (simp add: pw lw)
      with step show False by simp
    qed
    then have "th3_replace (c # th3_replace cs) = c # th3_replace (th3_replace cs)" by (rule rep_nomatch)
    with step ih show ?thesis by (simp add: rep_nomatch)
  qed
qed

lemma tidy_TH3: "tidy b (TH3_EN_DASH @ r) = tidy True r"
  by (simp add: TH3_EN_DASH_def str_def py_isspace_def)

lemma tidy_new: "tidy b ((str ''TH3 - OY'') @ r) = tidy True r"
  by (simp add: py_isspace_def str_def)

lemma tidy_rep: "tidy b t \<Longrightarrow> tidy b (th3_replace t)"
proof (induction t arbitrary: b rule: length_induct)
  case (1 t)
  show ?case
  proof (cases t rule: rep_cases)
    case nil with 1 show ?thesis by (simp add: rep_Nil)
  next
    case (match r)
    then have "length r < length t" by (simp add: TH3_len)
    moreover from match "1.prems" have "tidy True r" by (simp add: tidy_TH3)
    ultimately have "tidy True (th3_replace r)" using "1.IH" by blast
    with match show ?thesis by (simp only: rep_match tidy_new)
  next
    case (step c cs)
    have ih: "\<And>b'. tidy b' cs \<Longrightarrow> tidy b' (th3_replace cs)" using "1.IH" step by simp
    from step have r: "th3_replace t = c # th3_replace cs" by (simp add: rep_nomatch)
    show ?thesis
    proof (cases "c = 0x20")
      case True
      with "1.prems" step have "b" "tidy False cs" by simp_all
      with ih r True show ?thesis by simp
    next
      case False
      with "1.prems" step have "\<not> py_isspace c" "tidy True cs" by simp_all
      with ih r False show ?thesis by simp
    qed
  qed
qed

lemma set_rep: "set (th3_replace t) \<subseteq> set t \<union> set (str ''TH3 - OY'')"
proof (induction t rule: length_induct)
  case (1 t)
  show ?case
  proof (cases t rule: rep_cases)
    case nil then show ?thesis by (simp add: rep_Nil)
  next
    case (match r)
    then have "length r < length t" by (simp add: TH3_len)
    with 1 have "set (th3_replace r) \<subseteq> set r \<union> set (str ''TH3 - OY'')" by blast
    moreover have "set (th3_replace t) = set (str ''TH3 - OY'') \<union> set (th3_replace r)"
      using match by (simp only: rep_match set_append)
    moreover have "set r \<subseteq> set t" using match by simp
    ultimately show ?thesis by blast
  next
    case (step c cs)
    with 1 have "set (th3_replace cs) \<subseteq> set cs \<union> set (str ''TH3 - OY'')" by simp
    moreover from step have "set (th3_replace t) = insert c (set (th3_replace cs))" by (simp add: rep_nomatch)
    moreover from step have "set t = insert c (set cs)" by simp
    ultimately show ?thesis by blast
  qed
qed

lemma set_split_ws: "w \<in> set (split_ws cur s) \<Longrightarrow> set w \<subseteq> set cur \<union> set s"
proof (induction s arbitrary: cur)
  case Nil then show ?case by (cases "cur = []") simp_all
next
  case (Cons c cs)
  show ?case
  proof (cases "py_isspace c")
    case True
    with Cons.prems have "w = cur \<or> w \<in> set (split_ws [] cs)"
      by (cases "cur = []") simp_all
    then show ?thesis using Cons.IH[of "[]"] by auto
  next
    case False
    with Cons.prems have "w \<in> set (split_ws (cur @ [c]) cs)" by simp
    from Cons.IH[OF this] show ?thesis by auto
  qed
qed

lemma set_py_join: "c \<in> set (py_join sep ws) \<Longrightarrow> c \<in> set sep \<or> (\<exists>w\<in>set ws. c \<in> set w)"
proof (induction sep ws rule: py_join.induct)
  case (1 sep) then show ?case by simp
next
  case (2 sep x) then show ?case by simp
next
  case (3 sep x y ys)
  from "3.prems" have "c \<in> set x \<or> c \<in> set sep \<or> c \<in> set (py_join sep (y # ys))"
    by simp
  then show ?case
  proof (elim disjE)
    assume "c \<in> set (py_join sep (y # ys))"
    from "3.IH"[OF this] show ?thesis by (metis list.set_intros(2))
  qed simp_all
qed

lemma py_upper_fixed: "\<forall>c\<in>set s. up c = [c] \<Longrightarrow> py_upper up s = s"
  by (induction s) (simp_all add: py_upper_def)

lemma py_upper_stable: "upper_stable up \<Longrightarrow> d \<in> set (py_upper up s) \<Longrightarrow> up d = [d]"
  by (auto simp: py_upper_def upper_stable_def)

lemma norm_None: "norm up None = []"
  by (simp add: norm_def py_upper_def py_strip_def py_split_def rep_Nil)

lemma norm_empty: "norm up (Some []) = []"
  by (simp add: norm_def py_upper_def py_strip_def py_split_def rep_Nil)

lemma norm_norm:
  assumes st: "upper_stable up" and fx: "\<forall>c\<in>set (str ''TH3 - OY''). up c = [c]"
  shows "norm up (Some (norm up s)) = norm up s"
proof -
  define s0 where "s0 = (case s of None \<Rightarrow> [] | Some x \<Rightarrow> x)"
  define x where "x = py_upper up (py_strip s0)"
  define t where "t = py_join (str '' '') (py_split x)"
  define u where "u = th3_replace t"
  have u: "norm up s = u" by (simp add: norm_def s0_def x_def t_def u_def)
  show ?thesis
  proof (cases "py_split x = []")
    case True
    then have "u = []" by (simp add: u_def t_def rep_Nil)
    with u show ?thesis by (simp add: norm_empty)
  next
    case False
    have words: "\<forall>w\<in>set (py_split x). w \<noteq> [] \<and> (\<forall>c\<in>set w. \<not> py_isspace c)"
      unfolding py_split_def using split_ws_words[of "[]" _ x] by simp
    from tidy_join[OF words False] have "tidy False t" by (simp add: t_def)
    then have tu: "tidy False u" unfolding u_def by (rule tidy_rep)
    have fixed_x: "\<forall>c\<in>set x. up c = [c]"
      unfolding x_def using py_upper_stable[OF st] by blast
    have sp: "up 0x20 = [0x20]" using fx by (simp add: str_def)
    have ft: "\<forall>c\<in>set t. up c = [c]"
    proof
      fix c assume "c \<in> set t"
      then have "c \<in> set (str '' '') \<or> (\<exists>w\<in>set (split_ws [] x). c \<in> set w)"
        unfolding t_def py_split_def by (rule set_py_join)
      then show "up c = [c]"
      proof
        assume "c \<in> set (str '' '')"
        then show ?thesis using sp by (simp add: str_def)
      next
        assume "\<exists>w\<in>set (split_ws [] x). c \<in> set w"
        then obtain w where "w \<in> set (split_ws [] x)" "c \<in> set w" by blast
        with set_split_ws[of w "[]" x] have "c \<in> set x" by auto
        with fixed_x show ?thesis by blast
      qed
    qed
    have fu: "\<forall>c\<in>set u. up c = [c]"
      using set_rep[of t] ft fx unfolding u_def by blast
    have 1: "py_strip u = u" using tu by (rule strip_tidy)
    have 2: "py_upper up u = u" using fu by (rule py_upper_fixed)
    have 3: "py_join (str '' '') (py_split u) = u"
      unfolding py_split_def using join_split_tidy[OF tu, of "[]"] by simp
    have 4: "th3_replace u = u" unfolding u_def by (rule rep_idem)
    have "norm up (Some u) = u" by (simp add: norm_def 1 2 3 4)
    with u show ?thesis by simp
  qed
qed

lemma normalize_name_eq_norm: "normalize_name up s = norm up s"
  by (simp add: normalize_name_def norm_def)

lemma upper_stable_latin1: "upper_stable up_latin1"
  unfolding upper_stable_def
proof (intro allI ballI)
  fix c d assume "d \<in> set (up_latin1 c)"
  then show "up_latin1 d = [d]"
    by (auto simp: up_latin1_def split: if_splits)
qed

lemma upper_ascii_latin1: "upper_ascii up_latin1"
  by (simp add: upper_ascii_def up_latin1_def)

lemma upper_fixed_latin1: "\<forall>c\<in>set (str ''TH3 - OY''). up_latin1 c = [c]"
  by (simp add: str_def up_latin1_def)

lemmas norm_eval = norm_def normalize_name_def py_upper_def py_strip_def py_split_def
  py_isspace_def up_latin1_def TH3_EN_DASH_def str_def py_replace.simps

lemma norm_gestao_example:
  "norm up_latin1 (Some ([0xA0] @ str '' gest'' @ [0xE3] @ str ''o   th3 '' @ [0x2013] @ str '' oy '' @ [0x3000]))
     = str ''GEST'' @ [0xC3] @ str ''O TH3 - OY''"
  by (simp add: norm_eval)

text \<open>
  Claim C5. The name normalizer is idempotent: normalizing a normalized name gives it back,
  for \<open>norm\<close> of \<^verbatim>\<open>scripts/update_status.py\<close> and for \<open>normalize_name\<close> of
  \<^verbatim>\<open>preencher_malhas.py\<close>, each of which strips, uppercases, joins the white-space
  separated words with single spaces and replaces the en-dash form of \<open>TH3 - OY\<close>. The
  statement holds for every input (a string of arbitrary code points, or \<open>None\<close>) and every
  uppercase mapping \<open>up\<close> that is stable and leaves the code points of \<open>TH3 - OY\<close> as they
  are, as the mapping of the interpreter is and does.
\<close>

theorem normalizer_idempotent:
  assumes "upper_stable up" and "\<forall>c\<in>set (str ''TH3 - OY''). up c = [c]"
  shows "norm up (Some (norm up s)) = norm up s \<and>
         normalize_name up (Some (normalize_name up s)) = normalize_name up s"
proof -
  have "norm up (Some (norm up s)) = norm up s" using assms by (rule norm_norm)
  moreover have "normalize_name up (Some (normalize_name up s)) = norm up (Some (norm up s))"
    by (simp add: normalize_name_eq_norm)
  moreover have "normalize_name up s = norm up s" by (rule normalize_name_eq_norm)
  ultimately show ?thesis by simp
qed

theorem normalizer_idempotent_witness:
  "upper_stable up_latin1 \<and>
   up_latin1 0x54 = [0x54] \<and> up_latin1 0x20 = [0x20] \<and> up_latin1 0x2D = [0x2D] \<and>
   norm up_latin1 (Some ([0xA0] @ str '' gest'' @ [0xE3] @ str ''o   th3 '' @ [0x2013] @ str '' oy ''))
     = str ''GEST'' @ [0xC3] @ str ''O TH3 - OY'' \<and>
   norm up_latin1 (Some (str ''GEST'' @ [0xC3] @ str ''O TH3 - OY''))
     = str ''GEST'' @ [0xC3] @ str ''O TH3 - OY''"
proof -
  let ?s = "Some ([0xA0] @ str '' gest'' @ [0xE3] @ str ''o   th3 '' @ [0x2013] @ str '' oy '')"
  have e: "norm up_latin1 ?s = str ''GEST'' @ [0xC3] @ str ''O TH3 - OY''"
    by (simp add: norm_eval)
  from normalizer_idempotent[OF upper_stable_latin1 upper_fixed_latin1, of ?s]
  have "norm up_latin1 (Some (norm up_latin1 ?s)) = norm up_latin1 ?s" by blast
  with e have "norm up_latin1 (Some (str ''GEST'' @ [0xC3] @ str ''O TH3 - OY''))
     = str ''GEST'' @ [0xC3] @ str ''O TH3 - OY''" by simp
  with e upper_stable_latin1 show ?thesis by (simp add: up_latin1_def)
qed

section \<open>The order of the catalog\<close>

lemmas order_eval = sort_catalogo_def catalogo_key_def cat_order_def malha_order_def get_or_def
  py_get_def ORDEM_CATEGORIAS_def ORDEM_MALHAS_def GESTAO_PJ_def str_def

lemma py_index_Some: "py_index xs x = Some i \<Longrightarrow> i < length xs \<and> xs ! i = x"
  by (induction xs arbitrary: i) (auto split: if_splits)

lemma py_index_None: "py_index xs x = None \<longleftrightarrow> x \<notin> set xs"
  by (induction xs) auto

lemma py_index_nth: "distinct xs \<Longrightarrow> i < length xs \<Longrightarrow> py_index xs (xs ! i) = Some i"
proof (induction xs arbitrary: i)
  case Nil then show ?case by simp
next
  case (Cons y ys)
  show ?case
  proof (cases i)
    case 0 then show ?thesis by simp
  next
    case (Suc j)
    with Cons.prems have "j < length ys" "distinct ys" "ys ! j \<noteq> y" by auto
    with Cons.IH[of j] Suc show ?thesis by auto
  qed
qed

lemma distinct_ORDEM_CATEGORIAS: "distinct ORDEM_CATEGORIAS" "length ORDEM_CATEGORIAS = 5"
  by (simp_all add: ORDEM_CATEGORIAS_def GESTAO_PJ_def str_def)

lemma cat_order_known: "i < length ORDEM_CATEGORIAS \<Longrightarrow> cat_order (ORDEM_CATEGORIAS ! i) = i"
  by (simp add: cat_order_def py_index_nth distinct_ORDEM_CATEGORIAS)

lemma cat_order_unknown: "cat \<notin> set ORDEM_CATEGORIAS \<Longrightarrow> cat_order cat = 999"
  using py_index_None[of ORDEM_CATEGORIAS cat] by (simp add: cat_order_def)

lemma cat_order_lt: "cat \<in> set ORDEM_CATEGORIAS \<Longrightarrow> cat_order cat < 5"
proof -
  assume "cat \<in> set ORDEM_CATEGORIAS"
  then obtain i where "i < length ORDEM_CATEGORIAS" "ORDEM_CATEGORIAS ! i = cat"
    by (auto simp: in_set_conv_nth)
  with cat_order_known[of i] distinct_ORDEM_CATEGORIAS(2) show ?thesis by simp
qed

lemma ORDEM_MALHAS_lengths: "length (get_or (map_of ORDEM_MALHAS cat) []) \<le> 13"
  by (simp add: ORDEM_MALHAS_def get_or_def)

lemma malha_order_unlisted:
  "norm up nome \<notin> set (get_or (map_of ORDEM_MALHAS cat) []) \<Longrightarrow> malha_order up cat nome = 9999"
  using py_index_None[of "get_or (map_of ORDEM_MALHAS cat) []" "norm up nome"]
  by (simp add: malha_order_def Let_def)

lemma malha_order_listed:
  "norm up nome \<in> set (get_or (map_of ORDEM_MALHAS cat) []) \<Longrightarrow> malha_order up cat nome < 13"
proof -
  assume a: "norm up nome \<in> set (get_or (map_of ORDEM_MALHAS cat) [])"
  then obtain i where i: "py_index (get_or (map_of ORDEM_MALHAS cat) []) (norm up nome) = Some i"
    using py_index_None[of "get_or (map_of ORDEM_MALHAS cat) []" "norm up nome"] by auto
  from py_index_Some[OF i] ORDEM_MALHAS_lengths[of cat] have "i < 13" by simp
  with i show ?thesis by (simp add: malha_order_def Let_def)
qed

lemma sorted_sort_catalogo: "sorted (map (catalogo_key up) (sort_catalogo up catalogo))"
  by (simp add: sort_catalogo_def)

lemma mset_sort_catalogo: "mset (sort_catalogo up catalogo) = mset catalogo"
  by (simp add: sort_catalogo_def)

lemma sort_catalogo_positions:
  assumes "p < length (sort_catalogo up catalogo)" "q < length (sort_catalogo up catalogo)"
    and "catalogo_key up (sort_catalogo up catalogo ! p) < catalogo_key up (sort_catalogo up catalogo ! q)"
  shows "p < q"
proof (rule ccontr)
  assume "\<not> p < q"
  then have "q \<le> p" by simp
  with sorted_sort_catalogo[of up catalogo] assms(1)
  have "map (catalogo_key up) (sort_catalogo up catalogo) ! q \<le> map (catalogo_key up) (sort_catalogo up catalogo) ! p"
    by (simp add: sorted_iff_nth_mono del: nth_map)
  with assms show False by simp
qed

text \<open>
  Claim C4. For every catalog, \<open>sort_catalogo\<close> returns its operations (the same multiset)
  sorted by the key: the rank of a category of the fixed list is its position there and every
  other category has the rank 999; a listed name has a rank below 13 and every other name the
  rank 9999. Hence, for the operations \<open>a\<close> at position \<open>p\<close> and \<open>b\<close> at position \<open>q\<close> of the
  result: \<open>a\<close> comes before \<open>b\<close> when the category of \<open>a\<close> stands before the category of \<open>b\<close>
  in the fixed list, when the category of \<open>a\<close> is in the fixed list and that of \<open>b\<close> is not,
  when both have the same category and only the normalized name of \<open>a\<close> is in that category's
  name list, and when both ranks agree and the normalized name of \<open>a\<close> is the smaller one.
  (The function of \<^verbatim>\<open>preencher_malhas.py\<close> is the same, by \<open>normalize_name_eq_norm\<close>.)
\<close>

theorem sort_catalogo_order:
  "mset (sort_catalogo up catalogo) = mset catalogo \<and>
   sorted (map (catalogo_key up) (sort_catalogo up catalogo)) \<and>
   (\<forall>i. i < length ORDEM_CATEGORIAS \<longrightarrow> cat_order (ORDEM_CATEGORIAS ! i) = i) \<and>
   (\<forall>cat. cat \<notin> set ORDEM_CATEGORIAS \<longrightarrow> cat_order cat = 999) \<and>
   (\<forall>cat nome. norm up nome \<in> set (get_or (map_of ORDEM_MALHAS cat) []) \<longrightarrow> malha_order up cat nome < 13) \<and>
   (\<forall>cat nome. norm up nome \<notin> set (get_or (map_of ORDEM_MALHAS cat) []) \<longrightarrow> malha_order up cat nome = 9999) \<and>
   (\<forall>p q a b. p < length (sort_catalogo up catalogo) \<and> q < length (sort_catalogo up catalogo) \<and>
        a = sort_catalogo up catalogo ! p \<and> b = sort_catalogo up catalogo ! q \<longrightarrow>
      (\<forall>i j. i < j \<and> j < length ORDEM_CATEGORIAS \<and>
             c_categoria a = Some (ORDEM_CATEGORIAS ! i) \<and>
             c_categoria b = Some (ORDEM_CATEGORIAS ! j) \<longrightarrow> p < q) \<and>
      (get_or (c_categoria a) [] \<in> set ORDEM_CATEGORIAS \<and>
       get_or (c_categoria b) [] \<notin> set ORDEM_CATEGORIAS \<longrightarrow> p < q) \<and>
      (get_or (c_categoria a) [] = get_or (c_categoria b) [] \<and>
       norm up (py_get (c_nome a) (Some [])) \<in> set (get_or (map_of ORDEM_MALHAS (get_or (c_categoria a) [])) []) \<and>
       norm up (py_get (c_nome b) (Some [])) \<notin> set (get_or (map_of ORDEM_MALHAS (get_or (c_categoria a) [])) [])
         \<longrightarrow> p < q) \<and>
      (cat_order (get_or (c_categoria a) []) = cat_order (get_or (c_categoria b) []) \<and>
       malha_order up (get_or (c_categoria a) []) (py_get (c_nome a) (Some []))
         = malha_order up (get_or (c_categoria b) []) (py_get (c_nome b) (Some [])) \<and>
       norm up (py_get (c_nome a) (Some [])) < norm up (py_get (c_nome b) (Some [])) \<longrightarrow> p < q))"
proof (intro conjI allI impI)
  show "mset (sort_catalogo up catalogo) = mset catalogo" by (rule mset_sort_catalogo)
  show "sorted (map (catalogo_key up) (sort_catalogo up catalogo))" by (rule sorted_sort_catalogo)
next
  fix i assume "i < length ORDEM_CATEGORIAS"
  then show "cat_order (ORDEM_CATEGORIAS ! i) = i" by (rule cat_order_known)
next
  fix cat :: pystr assume "cat \<notin> set ORDEM_CATEGORIAS"
  then show "cat_order cat = 999" by (rule cat_order_unknown)
next
  fix cat nome assume "norm up nome \<in> set (get_or (map_of ORDEM_MALHAS cat) [])"
  then show "malha_order up cat nome < 13" by (rule malha_order_listed)
next
  fix cat nome assume "norm up nome \<notin> set (get_or (map_of ORDEM_MALHAS cat) [])"
  then show "malha_order up cat nome = 9999" by (rule malha_order_unlisted)
next
  fix p q a b i j
  assume pq: "p < length (sort_catalogo up catalogo) \<and> q < length (sort_catalogo up catalogo) \<and>
        a = sort_catalogo up catalogo ! p \<and> b = sort_catalogo up catalogo ! q"
    and h: "i < j \<and> j < length ORDEM_CATEGORIAS \<and>
             c_categoria a = Some (ORDEM_CATEGORIAS ! i) \<and>
             c_categoria b = Some (ORDEM_CATEGORIAS ! j)"
  then have "cat_order (get_or (c_categoria a) []) = i" "cat_order (get_or (c_categoria b) []) = j"
    by (simp_all add: get_or_def cat_order_known)
  with h have "catalogo_key up a < catalogo_key up b" by (simp add: catalogo_key_def)
  with pq show "p < q" using sort_catalogo_positions[of p up catalogo q] by simp
next
  fix p q a b
  assume pq: "p < length (sort_catalogo up catalogo) \<and> q < length (sort_catalogo up catalogo) \<and>
        a = sort_catalogo up catalogo ! p \<and> b = sort_catalogo up catalogo ! q"
    and h: "get_or (c_categoria a) [] \<in> set ORDEM_CATEGORIAS \<and>
       get_or (c_categoria b) [] \<notin> set ORDEM_CATEGORIAS"
  then have "cat_order (get_or (c_categoria a) []) < 5" "cat_order (get_or (c_categoria b) []) = 999"
    by (simp_all add: cat_order_lt cat_order_unknown)
  then have "catalogo_key up a < catalogo_key up b" by (simp add: catalogo_key_def)
  with pq show "p < q" using sort_catalogo_positions[of p up catalogo q] by simp
next
  fix p q a b
  assume pq: "p < length (sort_catalogo up catalogo) \<and> q < length (sort_catalogo up catalogo) \<and>
        a = sort_catalogo up catalogo ! p \<and> b = sort_catalogo up catalogo ! q"
    and h: "get_or (c_categoria a) [] = get_or (c_categoria b) [] \<and>
       norm up (py_get (c_nome a) (Some [])) \<in> set (get_or (map_of ORDEM_MALHAS (get_or (c_categoria a) [])) []) \<and>
       norm up (py_get (c_nome b) (Some [])) \<notin> set (get_or (map_of ORDEM_MALHAS (get_or (c_categoria a) [])) [])"
  define ca where "ca = get_or (c_categoria a) []"
  from h have cb: "get_or (c_categoria b) [] = ca"
    and inA: "norm up (py_get (c_nome a) (Some [])) \<in> set (get_or (map_of ORDEM_MALHAS ca) [])"
    and notB: "norm up (py_get (c_nome b) (Some [])) \<notin> set (get_or (map_of ORDEM_MALHAS ca) [])"
    unfolding ca_def by metis+
  have "malha_order up ca (py_get (c_nome a) (Some [])) < 13" using inA by (rule malha_order_listed)
  moreover have "malha_order up ca (py_get (c_nome b) (Some [])) = 9999"
    using notB by (rule malha_order_unlisted)
  ultimately have "catalogo_key up a < catalogo_key up b"
    by (simp add: catalogo_key_def cb ca_def[symmetric])
  with pq show "p < q" using sort_catalogo_positions[of p up catalogo q] by simp
next
  fix p q a b
  assume pq: "p < length (sort_catalogo up catalogo) \<and> q < length (sort_catalogo up catalogo) \<and>
        a = sort_catalogo up catalogo ! p \<and> b = sort_catalogo up catalogo ! q"
    and h: "cat_order (get_or (c_categoria a) []) = cat_order (get_or (c_categoria b) []) \<and>
       malha_order up (get_or (c_categoria a) []) (py_get (c_nome a) (Some []))
         = malha_order up (get_or (c_categoria b) []) (py_get (c_nome b) (Some [])) \<and>
       norm up (py_get (c_nome a) (Some [])) < norm up (py_get (c_nome b) (Some []))"
  then have "catalogo_key up a < catalogo_key up b" by (simp add: catalogo_key_def)
  with pq show "p < q" using sort_catalogo_positions[of p up catalogo q] by simp
qed

lemma sort_ex_catalogo:
  "sort_catalogo up_latin1 ex_catalogo =
     [\<lparr>c_id = str ''a'', c_nome = Val (str '' cma ''), c_categoria = Some (str ''Rotativos'')\<rparr>,
      \<lparr>c_id = str ''c'', c_nome = Val (str ''abc''), c_categoria = Some (str ''Rotativos'')\<rparr>,
      \<lparr>c_id = str ''b'', c_nome = Val (str ''zzz''), c_categoria = Some (str ''Semanal'')\<rparr>,
      \<lparr>c_id = str ''x'', c_nome = Val (str ''foo''), c_categoria = Some (str ''Outra'')\<rparr>]"
  by (simp add: ex_catalogo_def order_eval norm_eval)

theorem sort_catalogo_order_witness:
  "(1::nat) < length (sort_catalogo up_latin1 ex_catalogo) \<and> (2::nat) < length (sort_catalogo up_latin1 ex_catalogo) \<and>
   (0::nat) < 4 \<and> (4::nat) < length ORDEM_CATEGORIAS \<and>
   c_categoria (sort_catalogo up_latin1 ex_catalogo ! 1) = Some (ORDEM_CATEGORIAS ! 0) \<and>
   c_categoria (sort_catalogo up_latin1 ex_catalogo ! 2) = Some (ORDEM_CATEGORIAS ! 4) \<and>
   (1::nat) < 2 \<and>
   mset (sort_catalogo up_latin1 ex_catalogo) = mset ex_catalogo \<and>
   map c_id (sort_catalogo up_latin1 ex_catalogo) = map str [''a'', ''c'', ''b'', ''x'']"
proof -
  have h: "(1::nat) < length (sort_catalogo up_latin1 ex_catalogo) \<and> (2::nat) < length (sort_catalogo up_latin1 ex_catalogo) \<and>
      (0::nat) < 4 \<and> (4::nat) < length ORDEM_CATEGORIAS \<and>
      c_categoria (sort_catalogo up_latin1 ex_catalogo ! 1) = Some (ORDEM_CATEGORIAS ! 0) \<and>
      c_categoria (sort_catalogo up_latin1 ex_catalogo ! 2) = Some (ORDEM_CATEGORIAS ! 4)"
    by (simp add: sort_ex_catalogo ORDEM_CATEGORIAS_def)
  from sort_catalogo_order[of up_latin1 ex_catalogo]
  have m: "mset (sort_catalogo up_latin1 ex_catalogo) = mset ex_catalogo"
    and pos: "\<And>p q a b i j. p < length (sort_catalogo up_latin1 ex_catalogo) \<and> q < length (sort_catalogo up_latin1 ex_catalogo) \<and>
        a = sort_catalogo up_latin1 ex_catalogo ! p \<and> b = sort_catalogo up_latin1 ex_catalogo ! q \<Longrightarrow>
        i < j \<and> j < length ORDEM_CATEGORIAS \<and>
             c_categoria a = Some (ORDEM_CATEGORIAS ! i) \<and>
             c_categoria b = Some (ORDEM_CATEGORIAS ! j) \<Longrightarrow> p < q"
    by blast+
  from pos[of 1 2 _ _ 0 4] h have "(1::nat) < 2" by blast
  with h m show ?thesis by (simp add: sort_ex_catalogo)
qed

section \<open>Batch reconciliation: one record for each operation\<close>

lemma foldl_incoming_lookup:
  "foldl (incoming_step up) m xs n =
     (if n = [] \<or> filter (\<lambda>it. item_name up it = n) xs = [] then m n
      else Some (fill_of (last (filter (\<lambda>it. item_name up it = n) xs))))"
proof (induction xs rule: rev_induct)
  case Nil then show ?case by simp
next
  case (snoc x xs)
  show ?case
  proof (cases "item_name up x = []")
    case True
    then have "foldl (incoming_step up) m (xs @ [x]) = foldl (incoming_step up) m xs"
      by (simp add: incoming_step_def)
    moreover from True have "n \<noteq> [] \<Longrightarrow>
        filter (\<lambda>it. item_name up it = n) (xs @ [x]) = filter (\<lambda>it. item_name up it = n) xs"
      by auto
    ultimately show ?thesis using snoc by auto
  next
    case False
    then have st: "foldl (incoming_step up) m (xs @ [x]) = (foldl (incoming_step up) m xs)(item_name up x \<mapsto> fill_of x)"
      by (simp add: incoming_step_def)
    show ?thesis
    proof (cases "item_name up x = n")
      case True
      with False st show ?thesis by simp
    next
      case False
      with st snoc show ?thesis by simp
    qed
  qed
qed

lemma build_incoming_lookup:
  "build_incoming up xs n =
     (if n = [] \<or> filter (\<lambda>it. item_name up it = n) xs = [] then None
      else Some (fill_of (last (filter (\<lambda>it. item_name up it = n) xs))))"
  by (simp add: build_incoming_def foldl_incoming_lookup)

lemma length_itens_final: "length (itens_final up catalogo raw) = length catalogo"
  by (simp add: itens_final_def sort_catalogo_def)

lemma s_id_final_item: "s_id (final_item up incoming c) = c_id c"
  by (simp add: final_item_def Let_def split: option.splits)

lemma ids_itens_final: "map s_id (itens_final up catalogo raw) = map c_id (sort_catalogo up catalogo)"
  by (simp add: itens_final_def Let_def s_id_final_item)

lemma mset_ids_itens_final: "mset (map s_id (itens_final up catalogo raw)) = mset (map c_id catalogo)"
  by (simp add: ids_itens_final sort_catalogo_def)

lemma ensure_day_has_day: "\<exists>d. dias (ensure_day data day) day = Some d"
  by (auto simp: ensure_day_def)

lemma ensure_day_catalogo: "catalogo_malhas (ensure_day data day) = catalogo_malhas data"
  by (simp add: ensure_day_def)

lemma reconcile_result:
  "\<exists>data' u. reconcile up data pl day now = Inr data' \<and>
      catalogo_malhas data' = catalogo_malhas data \<and>
      dias data' day = Some \<lparr>d_updatedAt = u, d_itens = itens_final up (catalogo_malhas data) (p_itens pl)\<rparr> \<and>
      (\<forall>day'. day' \<noteq> day \<longrightarrow> dias data' day' = dias data day')"
proof -
  obtain d where d: "dias (ensure_day data day) day = Some d" using ensure_day_has_day by blast
  have other: "\<And>day'. day' \<noteq> day \<Longrightarrow> dias (ensure_day data day) day' = dias data day'"
    by (simp add: ensure_day_def)
  show ?thesis
    unfolding reconcile_def Let_def using d other
    by (cases d) (simp add: ensure_day_catalogo)
qed

lemma count_mset_map: "count (mset (map f xs)) k = length (filter (\<lambda>r. f r = k) xs)"
  by (induction xs) auto

text \<open>
  Claim C1. For every store whose catalog has pairwise distinct ids, every update payload
  (with any number of items, also none), every day and every clock value, the batch
  reconciliation succeeds and leaves a day record whose item list has as many status records
  as the catalog has operations, with pairwise distinct ids that are exactly the ids of the
  catalog: one record for each operation.
\<close>

theorem reconcile_one_record_per_operation:
  assumes "distinct (map c_id (catalogo_malhas data))"
  shows "\<exists>data' rec. reconcile up data pl day now = Inr data' \<and> dias data' day = Some rec \<and>
           length (d_itens rec) = length (catalogo_malhas data) \<and>
           distinct (map s_id (d_itens rec)) \<and>
           set (map s_id (d_itens rec)) = set (map c_id (catalogo_malhas data)) \<and>
           (\<forall>c\<in>set (catalogo_malhas data).
              length (filter (\<lambda>r. s_id r = c_id c) (d_itens rec)) = 1)"
proof -
  let ?cat = "catalogo_malhas data"
  let ?its = "itens_final up ?cat (p_itens pl)"
  from reconcile_result[of up data pl day now]
  obtain data' u where r: "reconcile up data pl day now = Inr data'"
    and d: "dias data' day = Some \<lparr>d_updatedAt = u, d_itens = ?its\<rparr>"
    by blast
  have m: "mset (map s_id ?its) = mset (map c_id ?cat)" by (rule mset_ids_itens_final)
  have len: "length ?its = length ?cat" by (rule length_itens_final)
  from m assms have dist: "distinct (map s_id ?its)"
    by (metis mset_eq_imp_distinct_iff)
  from m have st: "set (map s_id ?its) = set (map c_id ?cat)" by (rule mset_eq_setD)
  have one: "\<forall>c\<in>set ?cat. length (filter (\<lambda>r. s_id r = c_id c) ?its) = 1"
  proof
    fix c assume "c \<in> set ?cat"
    then have "c_id c \<in> set (map s_id ?its)" using st by auto
    with dist have "count (mset (map s_id ?its)) (c_id c) = 1"
      by (simp add: distinct_count_atmost_1)
    moreover have "count (mset (map s_id ?its)) (c_id c) = length (filter (\<lambda>r. s_id r = c_id c) ?its)"
      by (rule count_mset_map)
    ultimately show "length (filter (\<lambda>r. s_id r = c_id c) ?its) = 1" by simp
  qed
  from r d len dist st one show ?thesis by auto
qed

lemma itens_final_ex_empty:
  "itens_final up_latin1 ex_catalogo [] =
     [\<lparr>s_id = str ''a'', s_status = str ''sem_exec'', s_ultimo_job = JStr (str ''-''), s_termino_real = JStr (str ''-''),
       s_fim_de_jogo = False, s_nota = []\<rparr>,
      \<lparr>s_id = str ''c'', s_status = str ''sem_exec'', s_ultimo_job = JStr (str ''-''), s_termino_real = JStr (str ''-''),
       s_fim_de_jogo = False, s_nota = []\<rparr>,
      \<lparr>s_id = str ''b'', s_status = str ''sem_exec'', s_ultimo_job = JStr (str ''-''), s_termino_real = JStr (str ''-''),
       s_fim_de_jogo = False, s_nota = []\<rparr>,
      \<lparr>s_id = str ''x'', s_status = str ''sem_exec'', s_ultimo_job = JStr (str ''-''), s_termino_real = JStr (str ''-''),
       s_fim_de_jogo = False, s_nota = []\<rparr>]"
  by (simp add: itens_final_def sort_ex_catalogo build_incoming_def final_item_def Let_def)

theorem reconcile_one_record_per_operation_witness:
  "distinct (map c_id (catalogo_malhas ex_store)) \<and>
   (\<exists>data' rec. reconcile up_latin1 ex_store ex_payload_empty (str ''2026-02-01'') (str ''2026-02-01T20:00:00'') = Inr data' \<and>
      dias data' (str ''2026-02-01'') = Some rec \<and>
      length (d_itens rec) = 4 \<and>
      distinct (map s_id (d_itens rec)) \<and>
      set (map s_id (d_itens rec)) = {str ''a'', str ''b'', str ''c'', str ''x''})"
proof -
  have h: "distinct (map c_id (catalogo_malhas ex_store))"
    by (simp add: ex_store_def ex_catalogo_def)
  from reconcile_one_record_per_operation[OF h, of up_latin1 ex_payload_empty "str ''2026-02-01''" "str ''2026-02-01T20:00:00''"]
  obtain data' rec where
    "reconcile up_latin1 ex_store ex_payload_empty (str ''2026-02-01'') (str ''2026-02-01T20:00:00'') = Inr data'"
    "dias data' (str ''2026-02-01'') = Some rec"
    "length (d_itens rec) = length (catalogo_malhas ex_store)"
    "distinct (map s_id (d_itens rec))"
    "set (map s_id (d_itens rec)) = set (map c_id (catalogo_malhas ex_store))"
    by blast
  moreover have "length (catalogo_malhas ex_store) = 4"
    "set (map c_id (catalogo_malhas ex_store)) = {str ''a'', str ''b'', str ''c'', str ''x''}"
    by (auto simp: ex_store_def ex_catalogo_def)
  ultimately show ?thesis using h by auto
qed

section \<open>Batch reconciliation: the fields of a record\<close>

lemmas reconcile_eval = itens_final_def build_incoming_def incoming_step_def item_name_def
  op_name_def final_item_def fill_of_def valid_status_def VALID_STATUS_def py_or_def Let_def

lemma itens_final_foo_ok:
  "itens_final up_latin1 [ex_foo_entry] [ex_item_foo_ok] =
     [\<lparr>s_id = str ''a'', s_status = str ''ok'', s_ultimo_job = JStr (str ''-''),
       s_termino_real = JStr (str ''-''), s_fim_de_jogo = True, s_nota = []\<rparr>]"
  by (simp add: ex_foo_entry_def ex_item_foo_ok_def reconcile_eval order_eval norm_eval)

lemma itens_final_foo_ok_abend:
  "itens_final up_latin1 [ex_foo_entry] [ex_item_foo_ok, ex_item_foo_abend] =
     [\<lparr>s_id = str ''a'', s_status = str ''abend'', s_ultimo_job = JStr (str ''JOB1''),
       s_termino_real = JStr (str ''-''), s_fim_de_jogo = False, s_nota = str ''falhou''\<rparr>]"
  by (simp add: ex_foo_entry_def ex_item_foo_ok_def ex_item_foo_abend_def
        reconcile_eval order_eval norm_eval)

lemma itens_final_foo_abend_ok:
  "itens_final up_latin1 [ex_foo_entry] [ex_item_foo_abend, ex_item_foo_ok] =
     [\<lparr>s_id = str ''a'', s_status = str ''ok'', s_ultimo_job = JStr (str ''-''),
       s_termino_real = JStr (str ''-''), s_fim_de_jogo = True, s_nota = []\<rparr>]"
  by (simp add: ex_foo_entry_def ex_item_foo_ok_def ex_item_foo_abend_def
        reconcile_eval order_eval norm_eval)

lemma itens_final_blank:
  "itens_final up_latin1 [ex_blank_entry] [ex_item_blank_ok] =
     [\<lparr>s_id = str ''a'', s_status = str ''sem_exec'', s_ultimo_job = JStr (str ''-''),
       s_termino_real = JStr (str ''-''), s_fim_de_jogo = False, s_nota = []\<rparr>]"
  by (simp add: ex_blank_entry_def ex_item_blank_ok_def reconcile_eval order_eval norm_eval)

lemma names_foo:
  "item_name up_latin1 ex_item_foo_ok = str ''FOO''"
  "item_name up_latin1 ex_item_foo_abend = str ''FOO''"
  "op_name up_latin1 ex_foo_entry = str ''FOO''"
  "item_name up_latin1 ex_item_blank_ok = []"
  "op_name up_latin1 ex_blank_entry = []"
  by (simp_all add: ex_foo_entry_def ex_item_foo_ok_def ex_item_foo_abend_def
        ex_blank_entry_def ex_item_blank_ok_def item_name_def op_name_def get_or_def py_get_def
        norm_eval)

lemma final_item_lookup:
  "final_item up (build_incoming up raw) c =
     (let ms = filter (\<lambda>it. item_name up it = op_name up c) raw
      in if op_name up c \<noteq> [] \<and> ms \<noteq> []
         then \<lparr>s_id = c_id c, s_status = f_status (fill_of (last ms)),
               s_ultimo_job = f_ultimo_job (fill_of (last ms)),
               s_termino_real = f_termino_real (fill_of (last ms)),
               s_fim_de_jogo = f_fim_de_jogo (fill_of (last ms)),
               s_nota = f_nota (fill_of (last ms))\<rparr>
         else \<lparr>s_id = c_id c, s_status = str ''sem_exec'', s_ultimo_job = JStr (str ''-''),
               s_termino_real = JStr (str ''-''), s_fim_de_jogo = False, s_nota = []\<rparr>)"
  by (simp add: final_item_def build_incoming_lookup Let_def)


lemma filter_unique_perm:
  assumes d: "distinct (filter (\<lambda>n. n \<noteq> []) (map f xs))" and m: "mset ys = mset xs"
    and n: "n \<noteq> []"
  shows "filter (\<lambda>x. f x = n) ys = filter (\<lambda>x. f x = n) xs"
proof -
  have "count (mset (filter (\<lambda>n. n \<noteq> []) (map f xs))) n \<le> 1"
    using d by (simp add: distinct_count_atmost_1)
  moreover have "count (mset (filter (\<lambda>n. n \<noteq> []) (map f xs))) n = count (mset (map f xs)) n"
    using n by simp
  ultimately have "count (mset (map f xs)) n \<le> 1" by simp
  then have l: "length (filter (\<lambda>x. f x = n) xs) \<le> 1" by (simp only: count_mset_map)
  have e: "mset (filter (\<lambda>x. f x = n) ys) = mset (filter (\<lambda>x. f x = n) xs)"
    using m by simp
  show ?thesis
  proof (cases "filter (\<lambda>x. f x = n) xs")
    case Nil
    with e show ?thesis by simp
  next
    case (Cons a as)
    with l have s: "filter (\<lambda>x. f x = n) xs = [a]" by simp
    with e have "mset (filter (\<lambda>x. f x = n) ys) = {#a#}" by (simp del: mset_filter)
    then have "filter (\<lambda>x. f x = n) ys = [a]" by (simp only: mset_single_iff)
    with s show ?thesis by simp
  qed
qed

lemma build_incoming_perm:
  assumes "distinct (filter (\<lambda>n. n \<noteq> []) (map (item_name up) xs))" "mset ys = mset xs"
  shows "build_incoming up ys = build_incoming up xs"
proof
  fix n
  show "build_incoming up ys n = build_incoming up xs n"
  proof (cases "n = []")
    case True then show ?thesis by (simp add: build_incoming_lookup)
  next
    case False
    from filter_unique_perm[OF assms False] show ?thesis by (simp add: build_incoming_lookup)
  qed
qed

lemma itens_final_perm:
  assumes "distinct (filter (\<lambda>n. n \<noteq> []) (map (item_name up) xs))" "mset ys = mset xs"
  shows "itens_final up catalogo ys = itens_final up catalogo xs"
  by (simp add: itens_final_def build_incoming_perm[OF assms])



lemma reconcile_itens:
  assumes "reconcile up data pl day now = Inr data'"
  shows "map_option d_itens (dias data' day) = Some (itens_final up (catalogo_malhas data) (p_itens pl))"
proof -
  from reconcile_result[of up data pl day now] assms
  obtain u where "dias data' day =
      Some \<lparr>d_updatedAt = u, d_itens = itens_final up (catalogo_malhas data) (p_itens pl)\<rparr>"
    by auto
  then show ?thesis by simp
qed

lemma reconcile_cong:
  assumes "itens_final up (catalogo_malhas data) (p_itens pl')
      = itens_final up (catalogo_malhas data) (p_itens pl)"
    and "p_updatedAt pl' = p_updatedAt pl"
  shows "reconcile up data pl' day now = reconcile up data pl day now"
proof -
  have "catalogo_malhas (ensure_day data day) = catalogo_malhas data" by (rule ensure_day_catalogo)
  with assms show ?thesis
    by (simp only: reconcile_def Let_def)
qed

text \<open>
  Claim C3, amended. For every store and every update payload whose non-empty normalized item
  names are pairwise distinct, permuting the items of the payload gives the same reconciled
  store. For every payload, with or without such duplicates, the ids of the reconciled day
  follow the order of the sorted catalog.
\<close>

theorem reconcile_order_insensitive:
  "(distinct (filter (\<lambda>n. n \<noteq> []) (map (item_name up) (p_itens pl))) \<and>
    mset (p_itens pl') = mset (p_itens pl) \<and> p_updatedAt pl' = p_updatedAt pl \<longrightarrow>
      reconcile up data pl' day now = reconcile up data pl day now) \<and>
   (\<exists>data' rec. reconcile up data pl day now = Inr data' \<and> dias data' day = Some rec \<and>
      map s_id (d_itens rec) = map c_id (sort_catalogo up (catalogo_malhas data)))"
proof (intro conjI impI)
  assume a: "distinct (filter (\<lambda>n. n \<noteq> []) (map (item_name up) (p_itens pl))) \<and>
    mset (p_itens pl') = mset (p_itens pl) \<and> p_updatedAt pl' = p_updatedAt pl"
  then have "itens_final up (catalogo_malhas data) (p_itens pl')
      = itens_final up (catalogo_malhas data) (p_itens pl)"
    by (simp add: itens_final_perm)
  moreover from a have "p_updatedAt pl' = p_updatedAt pl" by simp
  ultimately show "reconcile up data pl' day now = reconcile up data pl day now"
    by (rule reconcile_cong)
next
  from reconcile_result[of up data pl day now]
  obtain data' u where "reconcile up data pl day now = Inr data'"
    "dias data' day =
       Some \<lparr>d_updatedAt = u, d_itens = itens_final up (catalogo_malhas data) (p_itens pl)\<rparr>"
    by blast
  then show "\<exists>data' rec. reconcile up data pl day now = Inr data' \<and> dias data' day = Some rec \<and>
      map s_id (d_itens rec) = map c_id (sort_catalogo up (catalogo_malhas data))"
    by (simp add: ids_itens_final)
qed

theorem reconcile_order_insensitive_witness:
  "distinct (filter (\<lambda>n. n \<noteq> []) (map (item_name up_latin1) (p_itens ex_payload_uniq))) \<and>
   mset (p_itens ex_payload_uniq_rev) = mset (p_itens ex_payload_uniq) \<and>
   p_updatedAt ex_payload_uniq_rev = p_updatedAt ex_payload_uniq \<and>
   p_itens ex_payload_uniq_rev \<noteq> p_itens ex_payload_uniq \<and>
   reconcile up_latin1 ex_foo_store ex_payload_uniq_rev (str ''2026-02-01'') (str ''2026-02-01T20:00:00'')
     = reconcile up_latin1 ex_foo_store ex_payload_uniq (str ''2026-02-01'') (str ''2026-02-01T20:00:00'')"
proof -
  have h: "distinct (filter (\<lambda>n. n \<noteq> []) (map (item_name up_latin1) (p_itens ex_payload_uniq))) \<and>
     mset (p_itens ex_payload_uniq_rev) = mset (p_itens ex_payload_uniq) \<and>
     p_updatedAt ex_payload_uniq_rev = p_updatedAt ex_payload_uniq"
    by (simp add: ex_payload_uniq_def ex_payload_uniq_rev_def names_foo)
  have n: "p_itens ex_payload_uniq_rev \<noteq> p_itens ex_payload_uniq"
    by (simp add: ex_payload_uniq_def ex_payload_uniq_rev_def ex_item_foo_ok_def ex_item_blank_ok_def)
  from reconcile_order_insensitive[of up_latin1 ex_payload_uniq ex_payload_uniq_rev ex_foo_store
      "str ''2026-02-01''" "str ''2026-02-01T20:00:00''"] h
  have "reconcile up_latin1 ex_foo_store ex_payload_uniq_rev (str ''2026-02-01'') (str ''2026-02-01T20:00:00'')
     = reconcile up_latin1 ex_foo_store ex_payload_uniq (str ''2026-02-01'') (str ''2026-02-01T20:00:00'')"
    by blast
  with h n show ?thesis by blast
qed

text \<open>
  Claim C3 as stated fails: two payloads with the same items in two orders, where two items
  have the same normalized name, are reconciled to different stores.
\<close>

theorem reconcile_order_counterexample:
  "mset (p_itens ex_payload_dup_rev) = mset (p_itens ex_payload_dup) \<and>
   p_date ex_payload_dup_rev = p_date ex_payload_dup \<and>
   p_updatedAt ex_payload_dup_rev = p_updatedAt ex_payload_dup \<and>
   reconcile up_latin1 ex_foo_store ex_payload_dup_rev (str ''2026-02-01'') (str ''2026-02-01T20:00:00'')
     \<noteq> reconcile up_latin1 ex_foo_store ex_payload_dup (str ''2026-02-01'') (str ''2026-02-01T20:00:00'')"
proof -
  have "reconcile up_latin1 ex_foo_store ex_payload_dup_rev (str ''2026-02-01'') (str ''2026-02-01T20:00:00'')
     \<noteq> reconcile up_latin1 ex_foo_store ex_payload_dup (str ''2026-02-01'') (str ''2026-02-01T20:00:00'')"
  proof
    assume e: "reconcile up_latin1 ex_foo_store ex_payload_dup_rev (str ''2026-02-01'') (str ''2026-02-01T20:00:00'')
       = reconcile up_latin1 ex_foo_store ex_payload_dup (str ''2026-02-01'') (str ''2026-02-01T20:00:00'')"
    obtain data' where r: "reconcile up_latin1 ex_foo_store ex_payload_dup (str ''2026-02-01'')
        (str ''2026-02-01T20:00:00'') = Inr data'"
      using reconcile_result[of up_latin1 ex_foo_store ex_payload_dup] by blast
    from reconcile_itens[OF r] reconcile_itens[OF e[unfolded r]]
    have "itens_final up_latin1 (catalogo_malhas ex_foo_store) (p_itens ex_payload_dup_rev)
        = itens_final up_latin1 (catalogo_malhas ex_foo_store) (p_itens ex_payload_dup)"
      by simp
    then show False
      by (simp add: ex_foo_store_def ex_payload_dup_def ex_payload_dup_rev_def
            itens_final_foo_ok_abend itens_final_foo_abend_ok)
  qed
  then show ?thesis by (simp add: ex_payload_dup_def ex_payload_dup_rev_def)
qed

lemma spec_record_eq: "final_item up (build_incoming up raw) c = spec_record up raw c"
proof -
  let ?P = "\<lambda>it. item_name up it = op_name up c"
  have f: "filter (\<lambda>it. item_name up it \<noteq> [] \<and> item_name up it = op_name up c) raw
      = (if op_name up c = [] then [] else filter ?P raw)"
    by (induction raw) auto
  show ?thesis
  proof (cases "op_name up c \<noteq> [] \<and> filter ?P raw \<noteq> []")
    case True
    then obtain m ms where ms: "filter ?P raw = m # ms" by (cases "filter ?P raw") auto
    with True show ?thesis
      unfolding spec_record_def f final_item_lookup
      by (simp add: Let_def fill_of_def valid_status_def py_or_def get_or_def
            del: last.simps split: jval.splits option.splits)
  next
    case False
    then show ?thesis
      unfolding spec_record_def f final_item_lookup by (auto simp: Let_def)
  qed
qed

lemma norm_foo:
  assumes "upper_ascii up"
  shows "norm up (Some (str ''foo'')) = str ''FOO''" "norm up (Some (str ''FOO'')) = str ''FOO''"
proof -
  from assms have u: "up 0x66 = [0x46]" "up 0x6F = [0x4F]" "up 0x46 = [0x46]" "up 0x4F = [0x4F]"
    by (simp_all add: upper_ascii_def)
  show "norm up (Some (str ''foo'')) = str ''FOO''" "norm up (Some (str ''FOO'')) = str ''FOO''"
    by (simp_all add: norm_def py_upper_def py_strip_def py_split_def py_isspace_def
          TH3_EN_DASH_def str_def py_replace.simps u)
qed

lemma itens_final_example:
  assumes "upper_ascii up"
  shows "itens_final up [ex_foo_entry] [ex_item_foo_ok] =
     [\<lparr>s_id = str ''a'', s_status = str ''ok'', s_ultimo_job = JStr (str ''-''),
       s_termino_real = JStr (str ''-''), s_fim_de_jogo = True, s_nota = []\<rparr>]"
  by (simp add: itens_final_def sort_catalogo_def build_incoming_def incoming_step_def
        item_name_def op_name_def final_item_def fill_of_def valid_status_def VALID_STATUS_def
        py_or_def get_or_def py_get_def py_strip_def Let_def ex_foo_entry_def ex_item_foo_ok_def
        norm_foo[OF assms])

text \<open>
  Claim C2, amended. The reconciled item list is the sorted catalog with each operation
  replaced by the record \<open>spec_record\<close> describes: the record of the last item whose
  normalized name is not empty and is the normalized name of the operation, with an absent or
  unknown status read as \<open>sem_exec\<close>, a blank \<open>ultimo_job\<close> or \<open>termino_real\<close> read as
  \<open>"-"\<close>, the truth value of \<open>fim_de_jogo\<close> and the stripped note; or the default record when
  there is no such item. In the example of the claim (catalog \<open>FOO\<close>, item \<open>foo\<close> with status
  \<open>ok\<close> and \<open>fim_de_jogo\<close> true) the record is as the claim says, for every uppercase mapping
  that is the usual one on ASCII.
\<close>

theorem reconciled_record_fields:
  "itens_final up catalogo raw = map (spec_record up raw) (sort_catalogo up catalogo) \<and>
   (upper_ascii up \<longrightarrow>
      itens_final up [ex_foo_entry] [ex_item_foo_ok] =
        [\<lparr>s_id = str ''a'', s_status = str ''ok'', s_ultimo_job = JStr (str ''-''),
          s_termino_real = JStr (str ''-''), s_fim_de_jogo = True, s_nota = []\<rparr>])"
proof (intro conjI impI)
  show "itens_final up catalogo raw = map (spec_record up raw) (sort_catalogo up catalogo)"
    by (simp add: itens_final_def Let_def spec_record_eq)
next
  assume "upper_ascii up"
  then show "itens_final up [ex_foo_entry] [ex_item_foo_ok] =
        [\<lparr>s_id = str ''a'', s_status = str ''ok'', s_ultimo_job = JStr (str ''-''),
          s_termino_real = JStr (str ''-''), s_fim_de_jogo = True, s_nota = []\<rparr>]"
    by (rule itens_final_example)
qed

theorem reconciled_record_fields_witness:
  "upper_ascii up_latin1 \<and>
   itens_final up_latin1 [ex_foo_entry] [ex_item_foo_ok] =
     [\<lparr>s_id = str ''a'', s_status = str ''ok'', s_ultimo_job = JStr (str ''-''),
       s_termino_real = JStr (str ''-''), s_fim_de_jogo = True, s_nota = []\<rparr>] \<and>
   itens_final up_latin1 [ex_foo_entry] [ex_item_foo_ok, ex_item_foo_abend]
     = map (spec_record up_latin1 [ex_item_foo_ok, ex_item_foo_abend])
           (sort_catalogo up_latin1 [ex_foo_entry])"
  using reconciled_record_fields[of up_latin1 "[ex_foo_entry]" "[ex_item_foo_ok]"]
    reconciled_record_fields[of up_latin1 "[ex_foo_entry]" "[ex_item_foo_ok, ex_item_foo_abend]"]
    upper_ascii_latin1
  by blast

text \<open>
  Claim C2 as stated fails in two ways. An item without a name and an operation with a blank
  name have the same normalized name (the empty string), yet the operation gets the default
  record and not the status \<open>ok\<close> of the item. And of two items with the normalized name of
  an operation, the first, with status \<open>ok\<close>, is not the one whose fields are used.
\<close>

theorem reconciled_record_counterexample:
  "item_name up_latin1 ex_item_blank_ok = op_name up_latin1 ex_blank_entry \<and>
   u_status ex_item_blank_ok = JStr (str ''ok'') \<and>
   map s_status (itens_final up_latin1 [ex_blank_entry] [ex_item_blank_ok]) = [str ''sem_exec''] \<and>
   item_name up_latin1 ex_item_foo_ok = op_name up_latin1 ex_foo_entry \<and>
   u_status ex_item_foo_ok = JStr (str ''ok'') \<and>
   map s_status (itens_final up_latin1 [ex_foo_entry] [ex_item_foo_ok, ex_item_foo_abend])
     = [str ''abend'']"
  by (simp add: names_foo itens_final_blank itens_final_foo_ok_abend)
     (simp add: ex_item_blank_ok_def ex_item_foo_ok_def)

section \<open>The report renderer\<close>

lemma row_line_spec: "row_line r = spec_line r"
proof -
  obtain cat nome st fim obs where r: "r = (cat, nome, st, fim, obs)" by (cases r) auto
  have "(case find_emoji STATUS_MAP st of None \<Rightarrow> EMOJI_WHITE
         | Some e \<Rightarrow> if e = [] then EMOJI_WHITE else e) = spec_glyph st"
    by (simp add: STATUS_MAP_def spec_glyph_def EMOJI_YELLOW_def EMOJI_GREEN_def EMOJI_BLUE_def
          EMOJI_RED_def EMOJI_WHITE_def EMOJI_BLACK_def)
  then show ?thesis by (simp add: r row_line_def spec_line_def Let_def)
qed

lemma add_rows_ok:
  "\<forall>r\<in>set rows. fst r \<in> dom g \<Longrightarrow>
   \<exists>g'. add_rows g rows = Inr g' \<and> dom g' = dom g \<and>
        (\<forall>c ls. g c = Some ls \<longrightarrow> g' c = Some (ls @ map row_line (filter (\<lambda>r. fst r = c) rows)))"
proof (induction rows arbitrary: g)
  case Nil then show ?case by simp
next
  case (Cons r rows)
  from Cons.prems obtain ls0 where ls0: "g (fst r) = Some ls0" by auto
  let ?g1 = "g(fst r \<mapsto> ls0 @ [row_line r])"
  have d1: "dom ?g1 = dom g" using ls0 by auto
  with Cons.prems have "\<forall>r\<in>set rows. fst r \<in> dom ?g1" by simp
  from Cons.IH[OF this] obtain g' where g': "add_rows ?g1 rows = Inr g'" "dom g' = dom ?g1"
    "\<forall>c ls. ?g1 c = Some ls \<longrightarrow> g' c = Some (ls @ map row_line (filter (\<lambda>r. fst r = c) rows))"
    by blast
  have "\<forall>c ls. g c = Some ls \<longrightarrow>
      g' c = Some (ls @ map row_line (filter (\<lambda>x. fst x = c) (r # rows)))"
  proof (intro allI impI)
    fix c ls assume a: "g c = Some ls"
    show "g' c = Some (ls @ map row_line (filter (\<lambda>x. fst x = c) (r # rows)))"
    proof (cases "fst r = c")
      case True
      with a ls0 have "?g1 c = Some (ls @ [row_line r])" by simp
      with g'(3) True show ?thesis by simp
    next
      case False
      with a have "?g1 c = Some ls" by simp
      with g'(3) False show ?thesis by simp
    qed
  qed
  with g' d1 ls0 show ?case by simp
qed

lemma add_rows_bad:
  "\<exists>r\<in>set rows. fst r \<notin> dom g \<Longrightarrow>
   \<exists>k. add_rows g rows = Inl (KeyError k) \<and> k \<notin> dom g \<and> k \<in> fst ` set rows"
proof (induction rows arbitrary: g)
  case Nil then show ?case by simp
next
  case (Cons r rows)
  show ?case
  proof (cases "g (fst r)")
    case None
    then show ?thesis by auto
  next
    case (Some ls0)
    let ?g1 = "g(fst r \<mapsto> ls0 @ [row_line r])"
    have d1: "dom ?g1 = dom g" using Some by auto
    from Cons.prems Some have "\<exists>r\<in>set rows. fst r \<notin> dom ?g1" unfolding d1 by auto
    from Cons.IH[OF this] obtain k where "add_rows ?g1 rows = Inl (KeyError k)" "k \<notin> dom ?g1"
      "k \<in> fst ` set rows" by blast
    with Some d1 show ?thesis by auto
  qed
qed

lemma sections_ok:
  "set cats \<subseteq> dom g \<Longrightarrow>
   sections g cats =
     Inr (concat (map (\<lambda>c. [c @ str '':\<newline>'']
                            @ (if the (g c) \<noteq> [] then map (\<lambda>x. str ''- '' @ x) (the (g c))
                               else [str ''- (sem itens)''])
                            @ [[]]) cats))"
proof (induction cats)
  case Nil then show ?case by simp
next
  case (Cons c cats)
  then obtain ls where "g c = Some ls" by auto
  with Cons show ?case by simp
qed

lemma dom_groups0: "dom groups0 = set ORDEM_CATEGORIAS"
  by (simp add: groups0_def dom_map_of_conv_image_fst image_image)

lemma groups0_Some: "c \<in> set ORDEM_CATEGORIAS \<Longrightarrow> groups0 c = Some []"
  unfolding groups0_def by (rule map_of_is_SomeI) (auto simp: distinct_ORDEM_CATEGORIAS comp_def)

lemma sections_spec:
  assumes g': "\<forall>c\<in>set ORDEM_CATEGORIAS. g' c = Some (map row_line (filter (\<lambda>r. fst r = c) rows))"
  shows "sections g' ORDEM_CATEGORIAS = Inr (concat (map (spec_section rows) ORDEM_CATEGORIAS))"
proof -
  from g' have sub: "set ORDEM_CATEGORIAS \<subseteq> dom g'" by auto
  have "map (\<lambda>c. [c @ str '':\<newline>'']
                  @ (if the (g' c) \<noteq> [] then map (\<lambda>x. str ''- '' @ x) (the (g' c))
                     else [str ''- (sem itens)''])
                  @ [[]]) ORDEM_CATEGORIAS
        = map (spec_section rows) ORDEM_CATEGORIAS"
  proof (rule map_cong[OF refl])
    fix c assume "c \<in> set ORDEM_CATEGORIAS"
    with g' have e: "the (g' c) = map spec_line (filter (\<lambda>r. fst r = c) rows)"
      by (simp add: row_line_spec[abs_def])
    show "[c @ str '':\<newline>'']
            @ (if the (g' c) \<noteq> [] then map (\<lambda>x. str ''- '' @ x) (the (g' c))
               else [str ''- (sem itens)''])
            @ [[]] = spec_section rows c"
      unfolding e spec_section_def
      by (cases "filter (\<lambda>r. fst r = c) rows") (simp_all add: comp_def)
  qed
  then show ?thesis by (simp only: sections_ok[OF sub])
qed

lemma add_rows_groups0:
  assumes "\<forall>r\<in>set rows. fst r \<in> set ORDEM_CATEGORIAS"
  shows "\<exists>g'. add_rows groups0 rows = Inr g' \<and>
           (\<forall>c\<in>set ORDEM_CATEGORIAS. g' c = Some (map row_line (filter (\<lambda>r. fst r = c) rows)))"
proof -
  from assms have "\<forall>r\<in>set rows. fst r \<in> dom groups0" by (simp add: dom_groups0)
  from add_rows_ok[OF this] obtain g' where g': "add_rows groups0 rows = Inr g'"
    "\<forall>c ls. groups0 c = Some ls \<longrightarrow> g' c = Some (ls @ map row_line (filter (\<lambda>r. fst r = c) rows))"
    by blast
  have "\<forall>c\<in>set ORDEM_CATEGORIAS. g' c = Some (map row_line (filter (\<lambda>r. fst r = c) rows))"
  proof
    fix c assume "c \<in> set ORDEM_CATEGORIAS"
    then have "groups0 c = Some []" by (rule groups0_Some)
    with g'(2) show "g' c = Some (map row_line (filter (\<lambda>r. fst r = c) rows))" by simp
  qed
  with g'(1) show ?thesis by blast
qed


lemma dom_foldl_index:
  "dom (foldl (\<lambda>idx c. idx(c_id c \<mapsto> c)) m cs) = dom m \<union> c_id ` set cs"
  by (induction cs arbitrary: m) auto

lemma dom_index_catalogo: "dom (index_catalogo data) = c_id ` set (catalogo_malhas data)"
  by (simp add: index_catalogo_def dom_foldl_index)

lemma dash_not_category: "str ''-'' \<notin> set ORDEM_CATEGORIAS"
  by (simp add: ORDEM_CATEGORIAS_def GESTAO_PJ_def str_def)

lemma report_row_absent:
  "index_catalogo data (s_id it) = None \<Longrightarrow> fst (report_row up (index_catalogo data) it) = str ''-''"
  by (simp add: report_row_def Let_def)

text \<open>
  Claim C10. The renderer is partial in the category of a row. If some row has a category
  outside \<open>ORDEM_CATEGORIAS\<close>, \<open>build_whatsapp_report\<close> raises \<open>KeyError\<close> on such a category
  and renders nothing; if every category is in the list, it never raises \<open>KeyError\<close>. A day
  item whose id is not in the catalog gets the category \<open>-\<close>, which is not in the list, so the
  report of a day holding such an item raises \<open>KeyError\<close>.
\<close>

theorem build_whatsapp_report_partial:
  "((\<exists>r\<in>set rows. fst r \<notin> set ORDEM_CATEGORIAS) \<longrightarrow>
      (\<exists>k. build_whatsapp_report dia rows = Inl (KeyError k) \<and>
           k \<notin> set ORDEM_CATEGORIAS \<and> k \<in> fst ` set rows)) \<and>
   ((\<forall>r\<in>set rows. fst r \<in> set ORDEM_CATEGORIAS) \<longrightarrow>
      (\<forall>k. build_whatsapp_report dia rows \<noteq> Inl (KeyError k))) \<and>
   (index_catalogo data (s_id it) = None \<longrightarrow>
      fst (report_row up (index_catalogo data) it) = str ''-'') \<and>
   str ''-'' \<notin> set ORDEM_CATEGORIAS \<and>
   ((\<exists>it\<in>set itens. s_id it \<notin> c_id ` set (catalogo_malhas data)) \<longrightarrow>
      (\<exists>k. build_whatsapp_report dia (report_rows up data itens) = Inl (KeyError k)))"
proof (intro conjI impI)
  assume "\<exists>r\<in>set rows. fst r \<notin> set ORDEM_CATEGORIAS"
  then have "\<exists>r\<in>set rows. fst r \<notin> dom groups0" by (simp add: dom_groups0)
  from add_rows_bad[OF this] obtain k where "add_rows groups0 rows = Inl (KeyError k)"
    "k \<notin> dom groups0" "k \<in> fst ` set rows" by blast
  then show "\<exists>k. build_whatsapp_report dia rows = Inl (KeyError k) \<and>
           k \<notin> set ORDEM_CATEGORIAS \<and> k \<in> fst ` set rows"
    by (auto simp: build_whatsapp_report_def dom_groups0)
next
  assume ok: "\<forall>r\<in>set rows. fst r \<in> set ORDEM_CATEGORIAS"
  from add_rows_groups0[OF ok] obtain g' where a: "add_rows groups0 rows = Inr g'"
    and g': "\<forall>c\<in>set ORDEM_CATEGORIAS. g' c = Some (map row_line (filter (\<lambda>r. fst r = c) rows))"
    by blast
  have s: "sections g' ORDEM_CATEGORIAS = Inr (concat (map (spec_section rows) ORDEM_CATEGORIAS))"
    using g' by (rule sections_spec)
  show "\<forall>k. build_whatsapp_report dia rows \<noteq> Inl (KeyError k)"
    by (auto simp: build_whatsapp_report_def a s br_date_def split: list.splits)
next
  assume "index_catalogo data (s_id it) = None"
  then show "fst (report_row up (index_catalogo data) it) = str ''-''" by (rule report_row_absent)
next
  show "str ''-'' \<notin> set ORDEM_CATEGORIAS" by (rule dash_not_category)
next
  assume "\<exists>it\<in>set itens. s_id it \<notin> c_id ` set (catalogo_malhas data)"
  then obtain it where it: "it \<in> set itens" "index_catalogo data (s_id it) = None"
    using dom_index_catalogo[of data] by (metis domIff)
  then have "fst (report_row up (index_catalogo data) it) \<notin> set ORDEM_CATEGORIAS"
    by (simp add: report_row_absent dash_not_category)
  with it(1) have "\<exists>r\<in>set (report_rows up data itens). fst r \<notin> dom groups0"
    by (auto simp: report_rows_def dom_groups0)
  from add_rows_bad[OF this] obtain k where
    "add_rows groups0 (report_rows up data itens) = Inl (KeyError k)" by blast
  then show "\<exists>k. build_whatsapp_report dia (report_rows up data itens) = Inl (KeyError k)"
    by (simp add: build_whatsapp_report_def)
qed



theorem build_whatsapp_report_partial_witness:
  "str ''-'' \<in> set (map fst ex_rows_bad) \<and> str ''-'' \<notin> set ORDEM_CATEGORIAS \<and>
   build_whatsapp_report (str ''2026-02-01'') ex_rows_bad = Inl (KeyError (str ''-''))"
proof -
  have h: "\<exists>r\<in>set ex_rows_bad. fst r \<notin> set ORDEM_CATEGORIAS"
    by (simp add: ex_rows_bad_def ex_rows_def ORDEM_CATEGORIAS_def GESTAO_PJ_def str_def)
  from build_whatsapp_report_partial[of ex_rows_bad "str ''2026-02-01''"] h
  obtain k where k: "build_whatsapp_report (str ''2026-02-01'') ex_rows_bad = Inl (KeyError k)"
    "k \<notin> set ORDEM_CATEGORIAS" "k \<in> fst ` set ex_rows_bad"
    by blast
  from k(3) have "k = str ''Rotativos'' \<or> k = str ''Semanal'' \<or> k = str ''-''"
    by (auto simp: ex_rows_bad_def ex_rows_def)
  with k(2) have "k = str ''-''" by (auto simp: ORDEM_CATEGORIAS_def)
  with k show ?thesis by (simp add: ex_rows_bad_def ex_rows_def)
qed

section \<open>Saving the store\<close>

lemma tmp_neq: "p @ str ''.tmp'' \<noteq> p"
  by (simp add: str_def)

lemma save_json_trace:
  "map (\<lambda>s. files s p) (save_json_states p d w) = [files w p, files w p, files w p, Some (Json d)]"
  by (simp add: save_json_states_def Let_def open_w_def json_dump_def os_replace_def str_def)

lemma save_json_tmp_trace:
  "map (\<lambda>s. files s (p @ str ''.tmp'')) (save_json_states p d w)
     = [files w (p @ str ''.tmp''), Some Truncated, Some (Json d), None]"
  by (simp add: save_json_states_def Let_def open_w_def json_dump_def os_replace_def str_def)

lemma save_json_others:
  "q \<noteq> p \<Longrightarrow> q \<noteq> p @ str ''.tmp'' \<Longrightarrow>
   map (\<lambda>s. files s q) (save_json_states p d w) = [files w q, files w q, files w q, files w q]"
  by (simp add: save_json_states_def Let_def open_w_def json_dump_def os_replace_def)

lemma path_name_append:
  "0x2F \<notin> set t \<Longrightarrow> path_name (p @ t) = path_name p @ t"
proof -
  assume "0x2F \<notin> set t"
  then have "takeWhile (\<lambda>c. c \<noteq> 0x2F) (rev t @ rev p) = rev t @ takeWhile (\<lambda>c. c \<noteq> 0x2F) (rev p)"
    by (intro takeWhile_append2) auto
  then show ?thesis by (simp add: path_name_def)
qed

lemma path_name_slash:
  "0x2F \<notin> set t \<Longrightarrow> path_name (r @ 0x2F # t) = t"
proof -
  assume "0x2F \<notin> set t"
  then have "takeWhile (\<lambda>c. c \<noteq> 0x2F) (rev t @ 0x2F # rev r)
               = rev t @ takeWhile (\<lambda>c. c \<noteq> 0x2F) (0x2F # rev r)"
    by (intro takeWhile_append2) auto
  then show ?thesis by (simp add: path_name_def)
qed

lemma path_parent_tmp: "path_parent (p @ str ''.tmp'') = path_parent p"
proof -
  have "path_name (p @ str ''.tmp'') = path_name p @ str ''.tmp''"
    by (rule path_name_append) (simp add: str_def)
  moreover have "length (path_name p) \<le> length p"
    by (simp add: path_name_def) (metis length_rev length_takeWhile_le)
  ultimately show ?thesis by (simp add: path_parent_def)
qed

lemma path_name_MALHAS: "path_name (MALHAS_JSON root) = str ''malhas.json''"
proof -
  have "path_name (root @ 0x2F # str ''malhas.json'') = str ''malhas.json''"
    by (rule path_name_slash) (simp add: str_def)
  then show ?thesis by (simp add: MALHAS_JSON_def str_def)
qed

lemma path_suffix_MALHAS: "path_suffix (MALHAS_JSON root) = str ''.json''"
  by (simp add: path_suffix_def path_name_MALHAS Let_def) (simp add: str_def)

lemma with_suffix_MALHAS:
  "with_suffix (MALHAS_JSON root) (str ''.tmp'') = root @ str ''/malhas.tmp''"
  by (simp add: with_suffix_def path_suffix_MALHAS) (simp add: MALHAS_JSON_def str_def)

lemma tmp_u_neq: "root @ str ''/malhas.tmp'' \<noteq> MALHAS_JSON root"
  by (simp add: MALHAS_JSON_def str_def)

lemma path_parent_MALHAS:
  "path_parent (root @ str ''/malhas.tmp'') = path_parent (MALHAS_JSON root)"
proof -
  have "path_name (root @ 0x2F # str ''malhas.tmp'') = str ''malhas.tmp''"
    by (rule path_name_slash) (simp add: str_def)
  then have "path_name (root @ str ''/malhas.tmp'') = str ''malhas.tmp''" by (simp add: str_def)
  then show ?thesis
    by (simp add: path_parent_def path_name_MALHAS) (simp add: MALHAS_JSON_def str_def)
qed

lemma save_json_u_trace:
  "map (\<lambda>s. files s (MALHAS_JSON root)) (save_json_u_states (MALHAS_JSON root) d w)
     = [files w (MALHAS_JSON root), files w (MALHAS_JSON root), files w (MALHAS_JSON root),
        Some (Json d)]"
  using tmp_u_neq[of root]
  by (simp add: save_json_u_states_def Let_def with_suffix_MALHAS open_w_def json_dump_def
        os_replace_def)

lemma save_json_u_tmp_trace:
  "map (\<lambda>s. files s (root @ str ''/malhas.tmp'')) (save_json_u_states (MALHAS_JSON root) d w)
     = [files w (root @ str ''/malhas.tmp''), Some Truncated, Some (Json d), None]"
  using tmp_u_neq[of root]
  by (simp add: save_json_u_states_def Let_def with_suffix_MALHAS open_w_def json_dump_def
        os_replace_def)

lemma save_json_u_others:
  "q \<noteq> MALHAS_JSON root \<Longrightarrow> q \<noteq> root @ str ''/malhas.tmp'' \<Longrightarrow>
   map (\<lambda>s. files s q) (save_json_u_states (MALHAS_JSON root) d w)
     = [files w q, files w q, files w q, files w q]"
  by (simp add: save_json_u_states_def Let_def with_suffix_MALHAS open_w_def json_dump_def
        os_replace_def)

lemma save_json_u_result:
  "files (save_json_u (MALHAS_JSON root) d w)
     = (files w)(root @ str ''/malhas.tmp'' := None, MALHAS_JSON root \<mapsto> Json d)"
  "console (save_json_u (MALHAS_JSON root) d w) = console w"
  by (simp_all add: save_json_u_def save_json_u_states_def Let_def with_suffix_MALHAS open_w_def
        json_dump_def os_replace_def)

text \<open>
  Claim C8. Saving the store writes the whole document to a temporary path in the directory
  of the store file and then renames it over the store file in one step. In the worlds a
  save goes through, the store path holds its old content until the rename and the new
  document after it, so it is never partially written, and a run that stops before the rename
  leaves it unchanged; the partial writing happens at the temporary path only. This holds of
  \<open>save_json\<close> of \<^verbatim>\<open>preencher_malhas.py\<close> at every path and of \<open>save_json\<close> of
  \<^verbatim>\<open>scripts/update_status.py\<close> at the store path \<open>MALHAS_JSON\<close>, where it is called.
\<close>

theorem save_json_atomic:
  "map (\<lambda>s. files s p) (save_json_states p d w)
     = [files w p, files w p, files w p, Some (Json d)] \<and>
   map (\<lambda>s. files s (p @ str ''.tmp'')) (save_json_states p d w)
     = [files w (p @ str ''.tmp''), Some Truncated, Some (Json d), None] \<and>
   path_parent (p @ str ''.tmp'') = path_parent p \<and>
   files (save_json p d w) p = Some (Json d) \<and>
   with_suffix (MALHAS_JSON root) (str ''.tmp'') = root @ str ''/malhas.tmp'' \<and>
   map (\<lambda>s. files s (MALHAS_JSON root)) (save_json_u_states (MALHAS_JSON root) d w)
     = [files w (MALHAS_JSON root), files w (MALHAS_JSON root), files w (MALHAS_JSON root),
        Some (Json d)] \<and>
   map (\<lambda>s. files s (root @ str ''/malhas.tmp'')) (save_json_u_states (MALHAS_JSON root) d w)
     = [files w (root @ str ''/malhas.tmp''), Some Truncated, Some (Json d), None] \<and>
   path_parent (root @ str ''/malhas.tmp'') = path_parent (MALHAS_JSON root) \<and>
   files (save_json_u (MALHAS_JSON root) d w) (MALHAS_JSON root) = Some (Json d)"
proof (intro conjI)
  show "files (save_json p d w) p = Some (Json d)"
    by (simp add: save_json_def save_json_states_def Let_def open_w_def json_dump_def
          os_replace_def)
  show "files (save_json_u (MALHAS_JSON root) d w) (MALHAS_JSON root) = Some (Json d)"
    by (simp add: save_json_u_result)
qed (rule save_json_trace save_json_tmp_trace path_parent_tmp with_suffix_MALHAS
      save_json_u_trace save_json_u_tmp_trace path_parent_MALHAS)+

section \<open>The entry points\<close>

lemma main_update_no_update_file:
  assumes "2 \<le> length argv" and "files w (path_join root (argv ! 1)) = None"
  shows "interpreter (main_update up root now argv w)
           = (1, w\<lparr>console := console w @ [Printed (MSG_NAO_ENCONTRADO @ path_join root (argv ! 1))]\<rparr>)"
  using assms
  by (simp add: main_update_def Let_def path_exists_def interpreter_def py_print_def)

lemma main_update_no_store:
  assumes "2 \<le> length argv" and "files w (path_join root (argv ! 1)) \<noteq> None"
    and "files w (MALHAS_JSON root) = None"
  shows "interpreter (main_update up root now argv w)
           = (1, w\<lparr>console := console w @ [Traceback (FileNotFoundError (MALHAS_JSON root))]\<rparr>)"
  using assms
  by (auto simp: main_update_def Let_def path_exists_def interpreter_def load_json_def)

lemma main_update_no_date:
  assumes "2 \<le> length argv" and "files w (MALHAS_JSON root) = Some (Json ds)"
    and "files w (path_join root (argv ! 1)) = Some (Json du)"
    and "p_date (as_payload du) = None \<or> p_date (as_payload du) = Some []"
  shows "interpreter (main_update up root now argv w)
           = (1, w\<lparr>console := console w @ [Printed MSG_DATE]\<rparr>)"
  using assms
  by (auto simp: main_update_def Let_def path_exists_def interpreter_def load_json_def
        py_print_def get_or_def)

lemma main_update_success:
  assumes "2 \<le> length argv" and "files w (MALHAS_JSON root) = Some (Json ds)"
    and "files w (path_join root (argv ! 1)) = Some (Json du)"
    and "p_date (as_payload du) = Some day" and "day \<noteq> []"
  shows "\<exists>data'. reconcile up (as_store ds) (as_payload du) day now = Inr data' \<and>
           fst (interpreter (main_update up root now argv w)) = 0 \<and>
           files (snd (interpreter (main_update up root now argv w))) (MALHAS_JSON root)
             = Some (Json (StoreDoc data'))"
proof -
  from reconcile_result[of up "as_store ds" "as_payload du" day now]
  obtain data' where r: "reconcile up (as_store ds) (as_payload du) day now = Inr data'" by blast
  have "main_update up root now argv w
          = (Returned,
             py_print (str ''OK: atualizado malhas.json para o dia '' @ day
                       @ str '' usando '' @ path_name (path_join root (argv ! 1)))
               (save_json_u (MALHAS_JSON root) (StoreDoc data') w))"
    using assms r
    by (simp add: main_update_def Let_def path_exists_def load_json_def get_or_def)
  then show ?thesis
    using r by (simp add: interpreter_def py_print_def save_json_u_result)
qed

lemma main_preencher_no_store:
  assumes "files w ARQUIVO_JSON = None"
  shows "interpreter (main_preencher session w)
           = (0, w\<lparr>console := console w @ [Printed MSG_NAO_ACHEI, Printed MSG_COLOQUE]\<rparr>)"
  using assms
  by (simp add: main_preencher_def path_exists_def interpreter_def py_print_def)

text \<open>
  Claim C7. When the update file named on the command line is missing, when the store
  document is missing, or when the update payload has no (or an empty) \<open>date\<close>, the process
  ends with status 1, or, in the interactive program, returns early, with a message on the
  console (a printed line, or the traceback of the \<open>FileNotFoundError\<close> that nothing catches
  when \<^verbatim>\<open>scripts/update_status.py\<close> finds no store), and the world is the initial one but for
  that message: no file is modified. Otherwise, with both documents readable and a date, the
  run ends with status 0 and the store file holds the reconciled store; the interactive
  program goes on to its session when the store file exists.
\<close>

theorem missing_input_exits:
  "(2 \<le> length argv \<and> files w (path_join root (argv ! 1)) = None \<longrightarrow>
      interpreter (main_update up root now argv w)
        = (1, w\<lparr>console := console w
                    @ [Printed (MSG_NAO_ENCONTRADO @ path_join root (argv ! 1))]\<rparr>)) \<and>
   (2 \<le> length argv \<and> files w (path_join root (argv ! 1)) \<noteq> None \<and>
    files w (MALHAS_JSON root) = None \<longrightarrow>
      interpreter (main_update up root now argv w)
        = (1, w\<lparr>console := console w @ [Traceback (FileNotFoundError (MALHAS_JSON root))]\<rparr>)) \<and>
   (2 \<le> length argv \<and> files w (MALHAS_JSON root) = Some (Json ds) \<and>
    files w (path_join root (argv ! 1)) = Some (Json du) \<and>
    (p_date (as_payload du) = None \<or> p_date (as_payload du) = Some []) \<longrightarrow>
      interpreter (main_update up root now argv w)
        = (1, w\<lparr>console := console w @ [Printed MSG_DATE]\<rparr>)) \<and>
   (2 \<le> length argv \<and> files w (MALHAS_JSON root) = Some (Json ds) \<and>
    files w (path_join root (argv ! 1)) = Some (Json du) \<and>
    p_date (as_payload du) = Some day \<and> day \<noteq> [] \<longrightarrow>
      (\<exists>data'. reconcile up (as_store ds) (as_payload du) day now = Inr data' \<and>
         fst (interpreter (main_update up root now argv w)) = 0 \<and>
         files (snd (interpreter (main_update up root now argv w))) (MALHAS_JSON root)
           = Some (Json (StoreDoc data')))) \<and>
   (files w ARQUIVO_JSON = None \<longrightarrow>
      interpreter (main_preencher session w)
        = (0, w\<lparr>console := console w @ [Printed MSG_NAO_ACHEI, Printed MSG_COLOQUE]\<rparr>)) \<and>
   (files w ARQUIVO_JSON \<noteq> None \<longrightarrow> main_preencher session w = session w)"
proof (intro conjI impI)
  assume "2 \<le> length argv \<and> files w (path_join root (argv ! 1)) = None"
  then show "interpreter (main_update up root now argv w)
        = (1, w\<lparr>console := console w
                    @ [Printed (MSG_NAO_ENCONTRADO @ path_join root (argv ! 1))]\<rparr>)"
    by (simp add: main_update_no_update_file)
next
  assume "2 \<le> length argv \<and> files w (path_join root (argv ! 1)) \<noteq> None \<and>
    files w (MALHAS_JSON root) = None"
  then show "interpreter (main_update up root now argv w)
        = (1, w\<lparr>console := console w @ [Traceback (FileNotFoundError (MALHAS_JSON root))]\<rparr>)"
    by (simp add: main_update_no_store)
next
  assume "2 \<le> length argv \<and> files w (MALHAS_JSON root) = Some (Json ds) \<and>
    files w (path_join root (argv ! 1)) = Some (Json du) \<and>
    (p_date (as_payload du) = None \<or> p_date (as_payload du) = Some [])"
  then show "interpreter (main_update up root now argv w)
        = (1, w\<lparr>console := console w @ [Printed MSG_DATE]\<rparr>)"
    using main_update_no_date[of argv w root ds du up now] by blast
next
  assume "2 \<le> length argv \<and> files w (MALHAS_JSON root) = Some (Json ds) \<and>
    files w (path_join root (argv ! 1)) = Some (Json du) \<and>
    p_date (as_payload du) = Some day \<and> day \<noteq> []"
  then show "\<exists>data'. reconcile up (as_store ds) (as_payload du) day now = Inr data' \<and>
         fst (interpreter (main_update up root now argv w)) = 0 \<and>
         files (snd (interpreter (main_update up root now argv w))) (MALHAS_JSON root)
           = Some (Json (StoreDoc data'))"
    using main_update_success[of argv w root ds du day up now] by blast
next
  assume "files w ARQUIVO_JSON = None"
  then show "interpreter (main_preencher session w)
        = (0, w\<lparr>console := console w @ [Printed MSG_NAO_ACHEI, Printed MSG_COLOQUE]\<rparr>)"
    by (rule main_preencher_no_store)
next
  assume "files w ARQUIVO_JSON \<noteq> None"
  then show "main_preencher session w = session w"
    by (simp add: main_preencher_def path_exists_def)
qed

lemma reconcile_ex_foo:
  "reconcile up_latin1 ex_foo_store ex_payload_foo (str ''2026-02-01'') (str ''2026-02-01T20:00:00'')
     = Inr \<lparr>catalogo_malhas = [ex_foo_entry],
            dias = [str ''2026-02-01'' \<mapsto>
                      \<lparr>d_updatedAt = str ''2026-02-01T20:00:00'',
                       d_itens = [\<lparr>s_id = str ''a'', s_status = str ''ok'',
                                   s_ultimo_job = JStr (str ''-''), s_termino_real = JStr (str ''-''),
                                   s_fim_de_jogo = True, s_nota = []\<rparr>]\<rparr>]\<rparr>"
  by (simp add: reconcile_def ensure_day_def Let_def ex_foo_store_def ex_payload_foo_def
        itens_final_foo_ok)

lemma ex_paths:
  "path_join (str ''/repo'') (ex_argv ! 1) = str ''/repo/updates/2026-02-01.json''"
  "MALHAS_JSON (str ''/repo'') = str ''/repo/malhas.json''"
  "2 \<le> length ex_argv"
  by (simp_all add: path_join_def ex_argv_def MALHAS_JSON_def str_def)

theorem missing_input_exits_witness:
  "interpreter (main_update up_latin1 (str ''/repo'') (str ''2026-02-01T20:00:00'') ex_argv
                  ex_world_store_only)
     = (1, ex_world_store_only
             \<lparr>console := [Printed (MSG_NAO_ENCONTRADO @ str ''/repo/updates/2026-02-01.json'')]\<rparr>) \<and>
   interpreter (main_update up_latin1 (str ''/repo'') (str ''2026-02-01T20:00:00'') ex_argv
                  ex_world_update_only)
     = (1, ex_world_update_only
             \<lparr>console := [Traceback (FileNotFoundError (str ''/repo/malhas.json''))]\<rparr>) \<and>
   interpreter (main_update up_latin1 (str ''/repo'') (str ''2026-02-01T20:00:00'') ex_argv
                  ex_world_nodate)
     = (1, ex_world_nodate\<lparr>console := [Printed MSG_DATE]\<rparr>) \<and>
   fst (interpreter (main_update up_latin1 (str ''/repo'') (str ''2026-02-01T20:00:00'') ex_argv
                       ex_world_both)) = 0 \<and>
   files (snd (interpreter (main_update up_latin1 (str ''/repo'') (str ''2026-02-01T20:00:00'')
                              ex_argv ex_world_both))) (str ''/repo/malhas.json'')
     = Some (Json (StoreDoc
         \<lparr>catalogo_malhas = [ex_foo_entry],
          dias = [str ''2026-02-01'' \<mapsto>
                    \<lparr>d_updatedAt = str ''2026-02-01T20:00:00'',
                     d_itens = [\<lparr>s_id = str ''a'', s_status = str ''ok'',
                                 s_ultimo_job = JStr (str ''-''), s_termino_real = JStr (str ''-''),
                                 s_fim_de_jogo = True, s_nota = []\<rparr>]\<rparr>]\<rparr>)) \<and>
   interpreter (main_preencher (\<lambda>w. (Returned, w)) ex_world_update_only)
     = (0, ex_world_update_only\<lparr>console := [Printed MSG_NAO_ACHEI, Printed MSG_COLOQUE]\<rparr>)"
proof -
  note T = missing_input_exits[where up = up_latin1 and root = "str ''/repo''"
      and now = "str ''2026-02-01T20:00:00''" and argv = ex_argv]
  have ha: "2 \<le> length ex_argv \<and>
      files ex_world_store_only (path_join (str ''/repo'') (ex_argv ! 1)) = None"
    by (simp only: ex_paths) (simp add: ex_world_store_only_def str_def)
  note A = T[where w = ex_world_store_only, THEN conjunct1, rule_format, OF ha, unfolded ex_paths]
  have hb: "2 \<le> length ex_argv \<and>
      files ex_world_update_only (path_join (str ''/repo'') (ex_argv ! 1)) \<noteq> None \<and>
      files ex_world_update_only (MALHAS_JSON (str ''/repo'')) = None"
    by (simp only: ex_paths) (simp add: ex_world_update_only_def str_def)
  note B = T[where w = ex_world_update_only, THEN conjunct2, THEN conjunct1, rule_format, OF hb,
      unfolded ex_paths]
  have hc: "2 \<le> length ex_argv \<and>
      files ex_world_nodate (MALHAS_JSON (str ''/repo'')) = Some (Json (StoreDoc ex_foo_store)) \<and>
      files ex_world_nodate (path_join (str ''/repo'') (ex_argv ! 1))
        = Some (Json (UpdateDoc ex_payload_nodate)) \<and>
      (p_date (as_payload (UpdateDoc ex_payload_nodate)) = None \<or>
       p_date (as_payload (UpdateDoc ex_payload_nodate)) = Some [])"
    by (simp only: ex_paths)
       (simp add: ex_world_nodate_def str_def as_payload_def ex_payload_nodate_def)
  note C = T[where w = ex_world_nodate, THEN conjunct2, THEN conjunct2, THEN conjunct1,
      rule_format, OF hc, unfolded ex_paths]
  have hd: "2 \<le> length ex_argv \<and>
      files ex_world_both (MALHAS_JSON (str ''/repo'')) = Some (Json (StoreDoc ex_foo_store)) \<and>
      files ex_world_both (path_join (str ''/repo'') (ex_argv ! 1))
        = Some (Json (UpdateDoc ex_payload_foo)) \<and>
      p_date (as_payload (UpdateDoc ex_payload_foo)) = Some (str ''2026-02-01'') \<and>
      str ''2026-02-01'' \<noteq> []"
    by (simp only: ex_paths)
       (simp add: ex_world_both_def str_def as_payload_def ex_payload_foo_def)
  from T[where w = ex_world_both, THEN conjunct2, THEN conjunct2, THEN conjunct2, THEN conjunct1,
      rule_format, OF hd, unfolded ex_paths]
  obtain data' where d:
    "reconcile up_latin1 (as_store (StoreDoc ex_foo_store)) (as_payload (UpdateDoc ex_payload_foo))
       (str ''2026-02-01'') (str ''2026-02-01T20:00:00'') = Inr data'"
    "fst (interpreter (main_update up_latin1 (str ''/repo'') (str ''2026-02-01T20:00:00'') ex_argv
                       ex_world_both)) = 0"
    "files (snd (interpreter (main_update up_latin1 (str ''/repo'') (str ''2026-02-01T20:00:00'')
                              ex_argv ex_world_both))) (str ''/repo/malhas.json'')
       = Some (Json (StoreDoc data'))"
    by blast
  from d(1) have d': "data' = \<lparr>catalogo_malhas = [ex_foo_entry],
          dias = [str ''2026-02-01'' \<mapsto>
                    \<lparr>d_updatedAt = str ''2026-02-01T20:00:00'',
                     d_itens = [\<lparr>s_id = str ''a'', s_status = str ''ok'',
                                 s_ultimo_job = JStr (str ''-''), s_termino_real = JStr (str ''-''),
                                 s_fim_de_jogo = True, s_nota = []\<rparr>]\<rparr>]\<rparr>"
    by (simp add: as_store_def as_payload_def reconcile_ex_foo)
  have he: "files ex_world_update_only ARQUIVO_JSON = None"
    by (simp add: ex_world_update_only_def ARQUIVO_JSON_def str_def)
  note E = T[where w = ex_world_update_only and session = "\<lambda>w. (Returned, w)", THEN conjunct2, THEN conjunct2,
      THEN conjunct2, THEN conjunct2, THEN conjunct1, rule_format, OF he]
  have c0: "console ex_world_store_only = []" "console ex_world_update_only = []"
    "console ex_world_nodate = []"
    by (simp_all add: ex_world_store_only_def ex_world_update_only_def ex_world_nodate_def)
  show ?thesis
    using A B C d(2) d(3)[unfolded d'] E by (simp only: c0 append_Nil simp_thms)
qed

end
